theory Spec2Isabelle
  imports Complex_Main
begin

section \<open>The root finder \<open>brents\<close> of \<open>rateslib/cextensions.pyx\<close>\<close>

text \<open>
  The source is one Python function, \<open>brents(f, x0, x1, max_iter, tolerance)\<close>.
  It is embedded twice, statement by statement. In the first embedding the
  floats are exact reals; it carries the claims about the control flow and the
  claims made for exact arithmetic, and the runs evaluated in it use dyadic values
  only, on which the double-precision operations of the source are exact. The
  second embedding, further down, computes in double precision, with rounding,
  underflow, overflow and nan; it carries the claims that depend on them. In both,
  \<open>max_iter\<close> and \<open>steps_taken\<close> are unbounded integers and the objective \<open>f\<close> is a
  pure function. Everything the function does besides computing is a value of the
  model:
  \<^item> the three exceptions it can raise are the constructors of \<open>error\<close>: the
    \<open>ValueError\<close> of the bracket check (the spec's InvalidBracket), the
    \<open>ZeroDivisionError\<close> of a float division by zero, and the \<open>UnboundLocalError\<close>
    of reading the local \<open>d\<close> before its first assignment;
  \<^item> the calls made to \<open>f\<close> are logged, in order, in the field \<open>calls\<close>;
  \<^item> the local variables that live across loop iterations are the fields of the
    record \<open>brents_state\<close>, with the source's names.
\<close>

datatype error = ValueError | ZeroDivisionError | UnboundLocalError

record brents_state =
  x0 :: real
  x1 :: real
  x2 :: real
  d :: "real option"
  fx0 :: real
  fx1 :: real
  fx2 :: real
  mflag :: bool
  steps_taken :: int
  calls :: "real list"

text \<open>Python's \<open>a / b\<close> on floats raises when \<open>b\<close> is zero.\<close>

definition truediv :: "real \<Rightarrow> real \<Rightarrow> error + real" where
  "truediv a b = (if b = 0 then Inl ZeroDivisionError else Inr (a / b))"

text \<open>Lines 27 to 29: the objective is evaluated again at the three nodes.\<close>

definition reeval :: "(real \<Rightarrow> real) \<Rightarrow> brents_state \<Rightarrow> brents_state" where
  "reeval f s =
     s\<lparr>fx0 := f (x0 s), fx1 := f (x1 s), fx2 := f (x2 s),
       calls := calls s @ [x0 s, x1 s, x2 s]\<rparr>"

text \<open>
  Lines 31 to 38: the candidate \<open>new\<close>, from the three terms or from the secant,
  in exact arithmetic. In double precision, where a product can overflow and a
  denominator underflow, it is \<open>candidate64\<close> below.
\<close>

definition candidate :: "brents_state \<Rightarrow> error + real" where
  "candidate s =
     (if fx0 s \<noteq> fx2 s \<and> fx1 s \<noteq> fx2 s then
        (case truediv (x0 s * fx1 s * fx2 s) ((fx0 s - fx1 s) * (fx0 s - fx2 s)) of
           Inl e \<Rightarrow> Inl e
         | Inr L0 \<Rightarrow>
        (case truediv (x1 s * fx0 s * fx2 s) ((fx1 s - fx0 s) * (fx1 s - fx2 s)) of
           Inl e \<Rightarrow> Inl e
         | Inr L1 \<Rightarrow>
        (case truediv (x2 s * fx1 s * fx0 s) ((fx2 s - fx0 s) * (fx2 s - fx1 s)) of
           Inl e \<Rightarrow> Inl e
         | Inr L2 \<Rightarrow> Inr (L0 + L1 + L2))))
      else
        (case truediv (fx1 s * (x1 s - x0 s)) (fx1 s - fx0 s) of
           Inl e \<Rightarrow> Inl e
         | Inr q \<Rightarrow> Inr (x1 s - q)))"

text \<open>
  Python's \<open>or\<close> and \<open>and\<close> evaluate their right operand only when the left one
  does not decide the result, so an exception of the right operand is raised only then.
\<close>

definition or_else :: "error + bool \<Rightarrow> error + bool \<Rightarrow> error + bool" where
  "or_else p q = (case p of Inl e \<Rightarrow> Inl e | Inr t \<Rightarrow> if t then Inr True else q)"

definition and_then :: "error + bool \<Rightarrow> error + bool \<Rightarrow> error + bool" where
  "and_then p q = (case p of Inl e \<Rightarrow> Inl e | Inr t \<Rightarrow> if t then q else Inr False)"

definition read_d :: "brents_state \<Rightarrow> error + real" where
  "read_d s = (case d s of None \<Rightarrow> Inl UnboundLocalError | Some v \<Rightarrow> Inr v)"

text \<open>Lines 40 to 44: the condition under which the candidate is replaced.\<close>

definition rejected :: "real \<Rightarrow> real \<Rightarrow> brents_state \<Rightarrow> error + bool" where
  "rejected tolerance new s =
     or_else (Inr (new < (3 * x0 s + x1 s) / 4 \<or> new > x1 s))
    (or_else (Inr (mflag s = True \<and> \<bar>new - x1 s\<bar> \<ge> \<bar>x1 s - x2 s\<bar> / 2))
    (or_else (and_then (Inr (mflag s = False))
                (case read_d s of Inl e \<Rightarrow> Inl e
                 | Inr dv \<Rightarrow> Inr (\<bar>new - x1 s\<bar> \<ge> \<bar>x2 s - dv\<bar> / 2)))
    (or_else (Inr (mflag s = True \<and> \<bar>x1 s - x2 s\<bar> < tolerance))
             (and_then (Inr (mflag s = False))
                (case read_d s of Inl e \<Rightarrow> Inl e
                 | Inr dv \<Rightarrow> Inr (\<bar>x2 s - dv\<bar> < tolerance))))))"

text \<open>
  Lines 45 to 49: on rejection the midpoint replaces the candidate and \<open>mflag\<close>
  becomes true, otherwise the candidate stays and \<open>mflag\<close> becomes false.
\<close>

definition acceptance :: "real \<Rightarrow> real \<Rightarrow> brents_state \<Rightarrow> error + real \<times> bool" where
  "acceptance tolerance new s =
     (case rejected tolerance new s of
        Inl e \<Rightarrow> Inl e
      | Inr r \<Rightarrow> if r then Inr ((x0 s + x1 s) / 2, True) else Inr (new, False))"

text \<open>
  Lines 51 to 62: \<open>f(new)\<close>, the shift of the history, the bracket update, the
  swap and the counter. The swap of line 59 reads \<open>fx0\<close> and \<open>fx1\<close>, which lines
  54 to 57 do not assign.
\<close>

definition advance :: "(real \<Rightarrow> real) \<Rightarrow> real \<Rightarrow> bool \<Rightarrow> brents_state \<Rightarrow> brents_state" where
  "advance f new m s =
     (let fnew = f new;
          s1 = s\<lparr>mflag := m, calls := calls s @ [new]\<rparr>;
          s2 = s1\<lparr>d := Some (x2 s1), x2 := x1 s1\<rparr>;
          s3 = (if fx0 s2 * fnew < 0 then s2\<lparr>x1 := new\<rparr> else s2\<lparr>x0 := new\<rparr>);
          s4 = (if \<bar>fx0 s3\<bar> < \<bar>fx1 s3\<bar> then s3\<lparr>x0 := x1 s3, x1 := x0 s3\<rparr> else s3)
      in s4\<lparr>steps_taken := steps_taken s4 + 1\<rparr>)"

text \<open>One pass through the loop body. An exception carries the log of calls so far.\<close>

definition body :: "(real \<Rightarrow> real) \<Rightarrow> real \<Rightarrow> brents_state \<Rightarrow> error \<times> real list + brents_state" where
  "body f tolerance s =
     (let s1 = reeval f s in
      case candidate s1 of
        Inl e \<Rightarrow> Inl (e, calls s1)
      | Inr new \<Rightarrow>
          (case acceptance tolerance new s1 of
             Inl e \<Rightarrow> Inl (e, calls s1)
           | Inr (new', m) \<Rightarrow> Inr (advance f new' m s1)))"

text \<open>Line 26: the loop condition.\<close>

definition continue :: "int \<Rightarrow> real \<Rightarrow> brents_state \<Rightarrow> bool" where
  "continue max_iter tolerance s \<longleftrightarrow>
     steps_taken s < max_iter \<and> \<bar>x1 s - x0 s\<bar> > tolerance"

function loop :: "(real \<Rightarrow> real) \<Rightarrow> int \<Rightarrow> real \<Rightarrow> brents_state \<Rightarrow> error \<times> real list + brents_state" where
  "loop f max_iter tolerance s =
     (if continue max_iter tolerance s then
        (case body f tolerance s of
           Inl e \<Rightarrow> Inl e
         | Inr s' \<Rightarrow> loop f max_iter tolerance s')
      else Inr s)"
  by pat_completeness auto
termination
  by (relation "measure (\<lambda>(f, max_iter, tolerance, s). nat (max_iter - steps_taken s))")
     (auto simp: continue_def body_def advance_def reeval_def Let_def
           split: sum.splits prod.splits if_splits)

declare loop.simps [simp del]

text \<open>Lines 17 to 24: the state in which the loop is entered.\<close>

definition start :: "real \<Rightarrow> real \<Rightarrow> real \<Rightarrow> real \<Rightarrow> brents_state" where
  "start a b fa fb =
     (if \<bar>fa\<bar> < \<bar>fb\<bar> then
        \<lparr>x0 = b, x1 = a, x2 = b, d = None, fx0 = fb, fx1 = fa, fx2 = fb,
         mflag = True, steps_taken = 0, calls = [a, b]\<rparr>
      else
        \<lparr>x0 = a, x1 = b, x2 = a, d = None, fx0 = fa, fx1 = fb, fx2 = fa,
         mflag = True, steps_taken = 0, calls = [a, b]\<rparr>)"

text \<open>
  The whole function. The arguments \<open>x0\<close> and \<open>x1\<close> of the source are \<open>a\<close> and \<open>b\<close>
  here. The result is the exception raised, or the returned pair, each with the log
  of the calls made to \<open>f\<close>. The product of the bracket check is the exact one; in
  double precision, where it can underflow, the function is \<open>brents64\<close> below.
\<close>

definition brents ::
  "(real \<Rightarrow> real) \<Rightarrow> real \<Rightarrow> real \<Rightarrow> int \<Rightarrow> real \<Rightarrow> error \<times> real list + real \<times> int \<times> real list" where
  "brents f a b max_iter tolerance =
     (let fa = f a; fb = f b in
      if fa * fb > 0 then Inl (ValueError, [a, b])
      else
        (case loop f max_iter tolerance (start a b fa fb) of
           Inl e \<Rightarrow> Inl e
         | Inr s \<Rightarrow> Inr (x1 s, steps_taken s, calls s)))"

text \<open>The state after \<open>n\<close> passes through the body, the loop condition not consulted.\<close>

fun passes :: "(real \<Rightarrow> real) \<Rightarrow> real \<Rightarrow> nat \<Rightarrow> brents_state \<Rightarrow> error \<times> real list + brents_state" where
  "passes f tolerance 0 s = Inr s"
| "passes f tolerance (Suc n) s =
     (case body f tolerance s of
        Inl e \<Rightarrow> Inl e
      | Inr s' \<Rightarrow> passes f tolerance n s')"

text \<open>
  The condition under which the acceptance test can read \<open>d\<close>: either the test
  does not reach the operands that read it, or \<open>d\<close> has been assigned.
\<close>

definition d_bound :: "brents_state \<Rightarrow> bool" where
  "d_bound s \<longleftrightarrow> mflag s \<or> d s \<noteq> None"

section \<open>Objective functions used as concrete inputs\<close>

text \<open>A line with its root at \<open>c\<close>, and the sign of \<open>x - 1/2\<close>.\<close>

definition shifted :: "real \<Rightarrow> real \<Rightarrow> real" where
  "shifted c x = x - c"

definition step :: "real \<Rightarrow> real" where
  "step x = sgn (x - 1 / 2)"

section \<open>Double-precision arithmetic\<close>

text \<open>
  A Python float is an IEEE 754 binary64 value: a finite number, an infinity or
  nan. The finite values are carried by their real value, so the two zeros are one
  value. The function cannot tell them apart: a division by either zero raises,
  comparisons and \<open>abs\<close> treat them alike, and the product of either with an
  infinity is nan. The objective is then a function that does not depend on the
  sign of a zero argument.
\<close>

datatype float64 = Fin real | PInf | NInf | NaN

text \<open>
  Rounding to the nearest integer, ties to the even one, and rounding of a real
  result to binary64: the spacing of the values around \<open>x\<close> is \<open>2\<close> to the power
  \<open>e - 52\<close>, where \<open>e\<close> is the binary exponent of \<open>x\<close> and at least \<open>-1022\<close> (below
  that the values are subnormal), and a rounded magnitude of \<open>2 ^ 1024\<close> or more is
  an infinity.
\<close>

definition rne :: "real \<Rightarrow> int" where
  "rne r =
     (let n = \<lfloor>r\<rfloor> in
      if r - of_int n < 1 / 2 then n
      else if r - of_int n > 1 / 2 then n + 1
      else if even n then n else n + 1)"

definition round64 :: "real \<Rightarrow> float64" where
  "round64 x =
     (if x = 0 then Fin 0
      else
        (let e = max \<lfloor>log 2 \<bar>x\<bar>\<rfloor> (- 1022);
             q = 2 powi (e - 52);
             y = of_int (rne (x / q)) * q
         in if \<bar>y\<bar> \<ge> 2 ^ 1024 then (if x > 0 then PInf else NInf) else Fin y))"

text \<open>
  The operations the function uses. Each rounds the exact result of finite
  operands and follows IEEE 754 on infinities and nan.
\<close>

fun fneg :: "float64 \<Rightarrow> float64" where
  "fneg (Fin a) = Fin (- a)"
| "fneg PInf = NInf"
| "fneg NInf = PInf"
| "fneg NaN = NaN"

fun fabs :: "float64 \<Rightarrow> float64" where
  "fabs (Fin a) = Fin \<bar>a\<bar>"
| "fabs PInf = PInf"
| "fabs NInf = PInf"
| "fabs NaN = NaN"

fun fadd :: "float64 \<Rightarrow> float64 \<Rightarrow> float64" where
  "fadd (Fin a) (Fin b) = round64 (a + b)"
| "fadd NaN v = NaN"
| "fadd u NaN = NaN"
| "fadd PInf NInf = NaN"
| "fadd NInf PInf = NaN"
| "fadd PInf v = PInf"
| "fadd u PInf = PInf"
| "fadd NInf v = NInf"
| "fadd u NInf = NInf"

definition fsub :: "float64 \<Rightarrow> float64 \<Rightarrow> float64" where
  "fsub u v = fadd u (fneg v)"

fun fmul :: "float64 \<Rightarrow> float64 \<Rightarrow> float64" where
  "fmul (Fin a) (Fin b) = round64 (a * b)"
| "fmul NaN v = NaN"
| "fmul u NaN = NaN"
| "fmul (Fin a) PInf = (if a = 0 then NaN else if a > 0 then PInf else NInf)"
| "fmul (Fin a) NInf = (if a = 0 then NaN else if a > 0 then NInf else PInf)"
| "fmul PInf (Fin b) = (if b = 0 then NaN else if b > 0 then PInf else NInf)"
| "fmul NInf (Fin b) = (if b = 0 then NaN else if b > 0 then NInf else PInf)"
| "fmul PInf PInf = PInf"
| "fmul PInf NInf = NInf"
| "fmul NInf PInf = NInf"
| "fmul NInf NInf = PInf"

fun fquot :: "float64 \<Rightarrow> float64 \<Rightarrow> float64" where
  "fquot (Fin a) (Fin b) =
     (if b = 0 then (if a = 0 then NaN else if a > 0 then PInf else NInf)
      else round64 (a / b))"
| "fquot NaN v = NaN"
| "fquot u NaN = NaN"
| "fquot (Fin a) PInf = Fin 0"
| "fquot (Fin a) NInf = Fin 0"
| "fquot PInf (Fin b) = (if b \<ge> 0 then PInf else NInf)"
| "fquot NInf (Fin b) = (if b \<ge> 0 then NInf else PInf)"
| "fquot PInf PInf = NaN"
| "fquot PInf NInf = NaN"
| "fquot NInf PInf = NaN"
| "fquot NInf NInf = NaN"

text \<open>
  The comparisons. Every ordered comparison with nan is false, and \<open>!=\<close> with nan
  is true.
\<close>

fun flt :: "float64 \<Rightarrow> float64 \<Rightarrow> bool" where
  "flt (Fin a) (Fin b) = (a < b)"
| "flt NaN v = False"
| "flt u NaN = False"
| "flt u NInf = False"
| "flt PInf v = False"
| "flt NInf v = True"
| "flt u PInf = True"

fun fle :: "float64 \<Rightarrow> float64 \<Rightarrow> bool" where
  "fle (Fin a) (Fin b) = (a \<le> b)"
| "fle NaN v = False"
| "fle u NaN = False"
| "fle NInf v = True"
| "fle u PInf = True"
| "fle u v = False"

definition fgt :: "float64 \<Rightarrow> float64 \<Rightarrow> bool" where
  "fgt u v = flt v u"

definition fge :: "float64 \<Rightarrow> float64 \<Rightarrow> bool" where
  "fge u v = fle v u"

definition fne :: "float64 \<Rightarrow> float64 \<Rightarrow> bool" where
  "fne u v \<longleftrightarrow> u = NaN \<or> v = NaN \<or> u \<noteq> v"

text \<open>
  Python's \<open>u / v\<close> on floats raises when \<open>v\<close> equals zero, and is the IEEE quotient
  otherwise. The integer literals \<open>0\<close>, \<open>2\<close>, \<open>3\<close> and \<open>4\<close> of the source are
  converted to floats exactly, and \<open>float(...)\<close> of a float is the float.
\<close>

definition truediv64 :: "float64 \<Rightarrow> float64 \<Rightarrow> error + float64" where
  "truediv64 u v = (if v = Fin 0 then Inl ZeroDivisionError else Inr (fquot u v))"

section \<open>The double-precision embedding of \<open>brents\<close>\<close>

text \<open>
  The same statements as above, over \<open>float64\<close>. The fields of the state carry
  the source's names with the suffix \<open>_f\<close>, the functions the names of the exact
  embedding with the suffix \<open>64\<close>.
\<close>

record state64 =
  x0_f :: float64
  x1_f :: float64
  x2_f :: float64
  d_f :: "float64 option"
  fx0_f :: float64
  fx1_f :: float64
  fx2_f :: float64
  mflag_f :: bool
  steps_taken_f :: int
  calls_f :: "float64 list"

text \<open>Lines 27 to 29.\<close>

definition reeval64 :: "(float64 \<Rightarrow> float64) \<Rightarrow> state64 \<Rightarrow> state64" where
  "reeval64 f s =
     s\<lparr>fx0_f := f (x0_f s), fx1_f := f (x1_f s), fx2_f := f (x2_f s),
       calls_f := calls_f s @ [x0_f s, x1_f s, x2_f s]\<rparr>"

text \<open>Lines 31 to 38.\<close>

definition candidate64 :: "state64 \<Rightarrow> error + float64" where
  "candidate64 s =
     (if fne (fx0_f s) (fx2_f s) \<and> fne (fx1_f s) (fx2_f s) then
        (case truediv64 (fmul (fmul (x0_f s) (fx1_f s)) (fx2_f s))
                (fmul (fsub (fx0_f s) (fx1_f s)) (fsub (fx0_f s) (fx2_f s))) of
           Inl e \<Rightarrow> Inl e
         | Inr L0 \<Rightarrow>
        (case truediv64 (fmul (fmul (x1_f s) (fx0_f s)) (fx2_f s))
                (fmul (fsub (fx1_f s) (fx0_f s)) (fsub (fx1_f s) (fx2_f s))) of
           Inl e \<Rightarrow> Inl e
         | Inr L1 \<Rightarrow>
        (case truediv64 (fmul (fmul (x2_f s) (fx1_f s)) (fx0_f s))
                (fmul (fsub (fx2_f s) (fx0_f s)) (fsub (fx2_f s) (fx1_f s))) of
           Inl e \<Rightarrow> Inl e
         | Inr L2 \<Rightarrow> Inr (fadd (fadd L0 L1) L2))))
      else
        (case truediv64 (fmul (fx1_f s) (fsub (x1_f s) (x0_f s))) (fsub (fx1_f s) (fx0_f s)) of
           Inl e \<Rightarrow> Inl e
         | Inr q \<Rightarrow> Inr (fsub (x1_f s) q)))"

definition read_d64 :: "state64 \<Rightarrow> error + float64" where
  "read_d64 s = (case d_f s of None \<Rightarrow> Inl UnboundLocalError | Some v \<Rightarrow> Inr v)"

text \<open>Lines 40 to 44.\<close>

definition rejected64 :: "float64 \<Rightarrow> float64 \<Rightarrow> state64 \<Rightarrow> error + bool" where
  "rejected64 tolerance new s =
     or_else (Inr (flt new (fquot (fadd (fmul (Fin 3) (x0_f s)) (x1_f s)) (Fin 4)) \<or>
                   fgt new (x1_f s)))
    (or_else (Inr (mflag_f s = True \<and>
                   fge (fabs (fsub new (x1_f s))) (fquot (fabs (fsub (x1_f s) (x2_f s))) (Fin 2))))
    (or_else (and_then (Inr (mflag_f s = False))
                (case read_d64 s of Inl e \<Rightarrow> Inl e
                 | Inr dv \<Rightarrow>
                     Inr (fge (fabs (fsub new (x1_f s))) (fquot (fabs (fsub (x2_f s) dv)) (Fin 2)))))
    (or_else (Inr (mflag_f s = True \<and> flt (fabs (fsub (x1_f s) (x2_f s))) tolerance))
             (and_then (Inr (mflag_f s = False))
                (case read_d64 s of Inl e \<Rightarrow> Inl e
                 | Inr dv \<Rightarrow> Inr (flt (fabs (fsub (x2_f s) dv)) tolerance))))))"

text \<open>Lines 45 to 49.\<close>

definition acceptance64 :: "float64 \<Rightarrow> float64 \<Rightarrow> state64 \<Rightarrow> error + float64 \<times> bool" where
  "acceptance64 tolerance new s =
     (case rejected64 tolerance new s of
        Inl e \<Rightarrow> Inl e
      | Inr r \<Rightarrow>
          if r then Inr (fquot (fadd (x0_f s) (x1_f s)) (Fin 2), True) else Inr (new, False))"

text \<open>Lines 51 to 62.\<close>

definition advance64 :: "(float64 \<Rightarrow> float64) \<Rightarrow> float64 \<Rightarrow> bool \<Rightarrow> state64 \<Rightarrow> state64" where
  "advance64 f new m s =
     (let fnew = f new;
          s1 = s\<lparr>mflag_f := m, calls_f := calls_f s @ [new]\<rparr>;
          s2 = s1\<lparr>d_f := Some (x2_f s1), x2_f := x1_f s1\<rparr>;
          s3 = (if flt (fmul (fx0_f s2) fnew) (Fin 0) then s2\<lparr>x1_f := new\<rparr>
                else s2\<lparr>x0_f := new\<rparr>);
          s4 = (if flt (fabs (fx0_f s3)) (fabs (fx1_f s3))
                then s3\<lparr>x0_f := x1_f s3, x1_f := x0_f s3\<rparr> else s3)
      in s4\<lparr>steps_taken_f := steps_taken_f s4 + 1\<rparr>)"

definition body64 ::
  "(float64 \<Rightarrow> float64) \<Rightarrow> float64 \<Rightarrow> state64 \<Rightarrow> error \<times> float64 list + state64" where
  "body64 f tolerance s =
     (let s1 = reeval64 f s in
      case candidate64 s1 of
        Inl e \<Rightarrow> Inl (e, calls_f s1)
      | Inr new \<Rightarrow>
          (case acceptance64 tolerance new s1 of
             Inl e \<Rightarrow> Inl (e, calls_f s1)
           | Inr (new', m) \<Rightarrow> Inr (advance64 f new' m s1)))"

text \<open>Line 26.\<close>

definition continue64 :: "int \<Rightarrow> float64 \<Rightarrow> state64 \<Rightarrow> bool" where
  "continue64 max_iter tolerance s \<longleftrightarrow>
     steps_taken_f s < max_iter \<and> fgt (fabs (fsub (x1_f s) (x0_f s))) tolerance"

function loop64 ::
  "(float64 \<Rightarrow> float64) \<Rightarrow> int \<Rightarrow> float64 \<Rightarrow> state64 \<Rightarrow> error \<times> float64 list + state64" where
  "loop64 f max_iter tolerance s =
     (if continue64 max_iter tolerance s then
        (case body64 f tolerance s of
           Inl e \<Rightarrow> Inl e
         | Inr s' \<Rightarrow> loop64 f max_iter tolerance s')
      else Inr s)"
  by pat_completeness auto
termination
  by (relation "measure (\<lambda>(f, max_iter, tolerance, s). nat (max_iter - steps_taken_f s))")
     (auto simp: continue64_def body64_def advance64_def reeval64_def Let_def
           split: sum.splits prod.splits if_splits)

declare loop64.simps [simp del]

text \<open>Lines 17 to 24.\<close>

definition start64 :: "float64 \<Rightarrow> float64 \<Rightarrow> float64 \<Rightarrow> float64 \<Rightarrow> state64" where
  "start64 a b fa fb =
     (if flt (fabs fa) (fabs fb) then
        \<lparr>x0_f = b, x1_f = a, x2_f = b, d_f = None, fx0_f = fb, fx1_f = fa, fx2_f = fb,
         mflag_f = True, steps_taken_f = 0, calls_f = [a, b]\<rparr>
      else
        \<lparr>x0_f = a, x1_f = b, x2_f = a, d_f = None, fx0_f = fa, fx1_f = fb, fx2_f = fa,
         mflag_f = True, steps_taken_f = 0, calls_f = [a, b]\<rparr>)"

text \<open>Lines 9 to 15 and the return of line 64.\<close>

definition brents64 ::
  "(float64 \<Rightarrow> float64) \<Rightarrow> float64 \<Rightarrow> float64 \<Rightarrow> int \<Rightarrow> float64 \<Rightarrow>
   error \<times> float64 list + float64 \<times> int \<times> float64 list" where
  "brents64 f a b max_iter tolerance =
     (let fa = f a; fb = f b in
      if fgt (fmul fa fb) (Fin 0) then Inl (ValueError, [a, b])
      else
        (case loop64 f max_iter tolerance (start64 a b fa fb) of
           Inl e \<Rightarrow> Inl e
         | Inr s \<Rightarrow> Inr (x1_f s, steps_taken_f s, calls_f s)))"

fun passes64 ::
  "(float64 \<Rightarrow> float64) \<Rightarrow> float64 \<Rightarrow> nat \<Rightarrow> state64 \<Rightarrow> error \<times> float64 list + state64" where
  "passes64 f tolerance 0 s = Inr s"
| "passes64 f tolerance (Suc n) s =
     (case body64 f tolerance s of
        Inl e \<Rightarrow> Inl e
      | Inr s' \<Rightarrow> passes64 f tolerance n s')"

definition d_bound64 :: "state64 \<Rightarrow> bool" where
  "d_bound64 s \<longleftrightarrow> mflag_f s \<or> d_f s \<noteq> None"

section \<open>Double-precision objectives used as concrete inputs\<close>

text \<open>
  The line \<open>(x + 1) / 2 ^ 600\<close>, whose values on the bracket from \<open>0\<close> to \<open>1\<close> are
  positive and have a product below the smallest positive double; the parabola
  with roots \<open>0\<close> and \<open>1\<close>; a line with its root at \<open>c\<close>; and the line
  \<open>2 ^ 1000 * (x - 3/8)\<close>, whose values on the bracket from \<open>0\<close> to \<open>1\<close> are
  doubles with products beyond the largest one.
\<close>

definition eps600 :: real where
  "eps600 = 1 / 2 ^ 600"

definition tiny :: "float64 \<Rightarrow> float64" where
  "tiny x = fmul (Fin eps600) (fadd x (Fin 1))"

definition parabola64 :: "float64 \<Rightarrow> float64" where
  "parabola64 x = fmul x (fsub x (Fin 1))"

definition shifted64 :: "real \<Rightarrow> float64 \<Rightarrow> float64" where
  "shifted64 c x = fsub x (Fin c)"

definition big :: real where
  "big = 2 ^ 997"

definition steep :: "float64 \<Rightarrow> float64" where
  "steep x = fmul (Fin (8 * big)) (fsub x (Fin (3 / 8)))"

section \<open>Auxiliary facts about the stages of the loop body\<close>

lemmas body_eval = body_def reeval_def candidate_def truediv_def acceptance_def rejected_def
  or_else_def and_then_def read_d_def advance_def Let_def

lemma candidate_raises:
  "candidate s = Inl e \<Longrightarrow> e = ZeroDivisionError"
  by (auto simp: candidate_def truediv_def split: if_splits sum.splits)

text \<open>
  In both branches the candidate is an exception exactly when \<open>fx0 = fx1\<close>: the
  test of line 31 compares \<open>fx0\<close> and \<open>fx1\<close> with \<open>fx2\<close>, not with each other.
\<close>

lemma candidate_raises_iff:
  "(\<exists>e. candidate s = Inl e) \<longleftrightarrow> fx0 s = fx1 s"
  by (auto simp: candidate_def truediv_def split: if_splits sum.splits)

lemma rejected_bound:
  "d_bound s \<Longrightarrow> \<exists>r. rejected tolerance new s = Inr r"
  by (cases "d s") (auto simp: d_bound_def rejected_def or_else_def and_then_def read_d_def)

lemma acceptance_bound:
  assumes "d_bound s"
  shows "\<exists>p. acceptance tolerance new s = Inr p"
proof -
  from rejected_bound [OF assms] obtain r where "rejected tolerance new s = Inr r" by blast
  then have "acceptance tolerance new s =
      Inr (if r then ((x0 s + x1 s) / 2, True) else (new, False))"
    by (simp add: acceptance_def)
  then show ?thesis by blast
qed

lemma d_bound_reeval: "d_bound (reeval f s) = d_bound s"
  by (simp add: d_bound_def reeval_def)

lemma d_advance: "d (advance f new m s) = Some (x2 s)"
  by (simp add: advance_def Let_def)

lemma body_raises:
  assumes "d_bound s" and "body f tolerance s = Inl (e, cs)"
  shows "e = ZeroDivisionError"
proof (cases "candidate (reeval f s)")
  case (Inl e')
  with assms(2) candidate_raises [OF Inl] show ?thesis by (simp add: body_def Let_def)
next
  case (Inr new)
  from assms(1) have "d_bound (reeval f s)" by (simp add: d_bound_reeval)
  from acceptance_bound [OF this] obtain p
    where "acceptance tolerance new (reeval f s) = Inr p" by blast
  with Inr assms(2) show ?thesis by (simp add: body_def Let_def split: prod.splits)
qed

lemma body_d_bound:
  "body f tolerance s = Inr s' \<Longrightarrow> d_bound s'"
  by (auto simp: body_def Let_def d_bound_def d_advance split: sum.splits prod.splits)

lemma loop_raises:
  "d_bound s \<Longrightarrow> loop f max_iter tolerance s = Inl (e, cs) \<Longrightarrow> e = ZeroDivisionError"
proof (induction f max_iter tolerance s rule: loop.induct)
  case (1 f max_iter tolerance s)
  show ?case
  proof (cases "continue max_iter tolerance s")
    case False
    with "1.prems" show ?thesis by (simp add: loop.simps)
  next
    case True
    show ?thesis
    proof (cases "body f tolerance s")
      case (Inl p)
      with True "1.prems" have "p = (e, cs)" by (simp add: loop.simps)
      with Inl "1.prems" show ?thesis by (auto dest: body_raises)
    next
      case (Inr s')
      with True "1.prems" have "loop f max_iter tolerance s' = Inl (e, cs)"
        by (simp add: loop.simps)
      with "1.IH" [OF True Inr] Inr show ?thesis by (auto dest: body_d_bound)
    qed
  qed
qed


lemma start_simps:
  "steps_taken (start a b fa fb) = 0" "mflag (start a b fa fb)" "calls (start a b fa fb) = [a, b]"
  "x1 (start a b fa fb) = (if \<bar>fa\<bar> < \<bar>fb\<bar> then a else b)"
  "x0 (start a b fa fb) = (if \<bar>fa\<bar> < \<bar>fb\<bar> then b else a)"
  by (simp_all add: start_def)

lemma brents_unfold:
  "brents f a b max_iter tolerance =
     (if f a * f b > 0 then Inl (ValueError, [a, b])
      else (case loop f max_iter tolerance (start a b (f a) (f b)) of
              Inl e \<Rightarrow> Inl e
            | Inr s \<Rightarrow> Inr (x1 s, steps_taken s, calls s)))"
  by (simp add: brents_def Let_def)

section \<open>Calls that never run the body\<close>

text \<open>
  Claim C6. When the bracket check passes and \<open>max_iter = 0\<close> or the two endpoints
  are within \<open>tolerance\<close> of each other, the call returns the endpoint with the
  smaller absolute function value (the second one on a tie) and the count \<open>0\<close>, and
  \<open>f\<close> has been called only twice: the body has not run. Nothing is required
  of the residual.
\<close>

theorem brents_no_iteration:
  assumes "f a * f b \<le> 0" and "max_iter = 0 \<or> \<bar>a - b\<bar> \<le> tolerance"
  shows "brents f a b max_iter tolerance =
           Inr (if \<bar>f a\<bar> < \<bar>f b\<bar> then a else b, 0, [a, b])"
proof -
  have "\<not> continue max_iter tolerance (start a b (f a) (f b))"
    using assms(2) by (auto simp: continue_def start_simps)
  then have "loop f max_iter tolerance (start a b (f a) (f b)) = Inr (start a b (f a) (f b))"
    by (simp add: loop.simps)
  with assms(1) show ?thesis by (simp add: brents_unfold start_simps)
qed

theorem brents_no_iteration_witness:
  "shifted (1 / 2) 0 * shifted (1 / 2) 1 \<le> 0 \<and>
   brents (shifted (1 / 2)) 0 1 0 (1 / 10 ^ 12) = Inr (1, 0, [0, 1]) \<and>
   shifted (1 / 8) 0 * shifted (1 / 8) (1 / 4) \<le> 0 \<and> \<bar>0 - 1 / 4\<bar> \<le> (1 / 2 :: real) \<and>
   brents (shifted (1 / 8)) 0 (1 / 4) 50 (1 / 2) = Inr (1 / 4, 0, [0, 1 / 4])"
  using brents_no_iteration [of "shifted (1 / 2)" 0 1 0 "1 / 10 ^ 12"]
    brents_no_iteration [of "shifted (1 / 8)" 0 "1 / 4" 50 "1 / 2"]
  by (simp add: shifted_def)

section \<open>The history variable \<open>d\<close>\<close>

text \<open>
  Claim C7. \<open>d\<close> is never read before it is assigned: \<open>mflag\<close> is true when the
  loop is entered, every completed pass assigns \<open>d\<close> (the old \<open>x2\<close>), the
  acceptance test raises no \<open>UnboundLocalError\<close> in a state where \<open>mflag\<close> is
  true or \<open>d\<close> is assigned, and so no call of \<open>brents\<close> raises it.
\<close>

theorem d_assigned_before_read:
  "mflag (start a b (f a) (f b)) \<and>
   (\<forall>s s'. body f tolerance s = Inr s' \<longrightarrow> d s' = Some (x2 s)) \<and>
   (\<forall>(s::brents_state) new. mflag s \<or> d s \<noteq> None \<longrightarrow> rejected tolerance new s \<noteq> Inl UnboundLocalError) \<and>
   (\<forall>cs. brents f a b max_iter tolerance \<noteq> Inl (UnboundLocalError, cs))"
proof (intro conjI allI impI)
  show "mflag (start a b (f a) (f b))" by (simp add: start_simps)
next
  fix s s' assume "body f tolerance s = Inr s'"
  then show "d s' = Some (x2 s)"
    by (auto simp: body_def Let_def d_advance reeval_def split: sum.splits prod.splits)
next
  fix s :: brents_state and new assume "mflag s \<or> d s \<noteq> None"
  then have "d_bound s" by (simp add: d_bound_def)
  from rejected_bound [OF this] show "rejected tolerance new s \<noteq> Inl UnboundLocalError"
    by (metis sum.distinct(1))
next
  fix cs
  have "d_bound (start a b (f a) (f b))" by (simp add: d_bound_def start_simps)
  from loop_raises [OF this, of f max_iter tolerance UnboundLocalError cs]
  show "brents f a b max_iter tolerance \<noteq> Inl (UnboundLocalError, cs)"
    by (auto simp: brents_unfold split: sum.splits if_splits)
qed

theorem d_assigned_before_read_witness:
  "body (shifted (3 / 8)) (1 / 10 ^ 12) (start 0 1 (shifted (3 / 8) 0) (shifted (3 / 8) 1)) =
     Inr \<lparr>x0 = 1 / 2, x1 = 0, x2 = 0, d = Some 1, fx0 = 5 / 8, fx1 = - (3 / 8),
          fx2 = 5 / 8, mflag = True, steps_taken = 1, calls = [0, 1, 1, 0, 1, 1 / 2]\<rparr> \<and>
   x2 (start 0 1 (shifted (3 / 8) 0) (shifted (3 / 8) 1)) = 1 \<and>
   (mflag (start 0 1 (shifted (3 / 8) 0) (shifted (3 / 8) 1)) \<or>
    d (start 0 1 (shifted (3 / 8) 0) (shifted (3 / 8) 1)) \<noteq> None) \<and>
   rejected (1 / 10 ^ 12) (3 / 8) (start 0 1 (shifted (3 / 8) 0) (shifted (3 / 8) 1))
     \<noteq> Inl UnboundLocalError \<and>
   (\<forall>cs. brents (shifted (3 / 8)) 0 1 50 (1 / 10 ^ 12) \<noteq> Inl (UnboundLocalError, cs))"
proof -
  note t = d_assigned_before_read [of 0 1 "shifted (3 / 8)" "1 / 10 ^ 12" 50]
  have e: "body (shifted (3 / 8)) (1 / 10 ^ 12) (start 0 1 (shifted (3 / 8) 0) (shifted (3 / 8) 1)) =
     Inr \<lparr>x0 = 1 / 2, x1 = 0, x2 = 0, d = Some 1, fx0 = 5 / 8, fx1 = - (3 / 8),
          fx2 = 5 / 8, mflag = True, steps_taken = 1, calls = [0, 1, 1, 0, 1, 1 / 2]\<rparr>"
    by (simp add: body_eval start_def shifted_def)
  have x: "x2 (start 0 1 (shifted (3 / 8) 0) (shifted (3 / 8) 1)) = 1"
    by (simp add: start_def shifted_def)
  from t have m: "mflag (start 0 1 (shifted (3 / 8) 0) (shifted (3 / 8) 1))" by blast
  from t m have r: "rejected (1 / 10 ^ 12) (3 / 8) (start 0 1 (shifted (3 / 8) 0) (shifted (3 / 8) 1))
     \<noteq> Inl UnboundLocalError" by blast
  from t have b: "\<forall>cs. brents (shifted (3 / 8)) 0 1 50 (1 / 10 ^ 12) \<noteq> Inl (UnboundLocalError, cs)"
    by blast
  from e x m r b show ?thesis by blast
qed

section \<open>The candidate and the acceptance test\<close>





section \<open>The width of the bracket\<close>

lemma advance_width:
  assumes "new = (x0 s + x1 s) / 2 \<or> ((3 * x0 s + x1 s) / 4 \<le> new \<and> new \<le> x1 s)"
  shows "\<bar>x1 (advance f new m s) - x0 (advance f new m s)\<bar> \<le> \<bar>x1 s - x0 s\<bar>"
  using assms by (auto simp: advance_def Let_def abs_if split: if_splits)

lemma acceptance_range:
  assumes "acceptance tolerance new s = Inr (new', m)"
  shows "new' = (x0 s + x1 s) / 2 \<or> ((3 * x0 s + x1 s) / 4 \<le> new' \<and> new' \<le> x1 s)"
  using assms
  by (auto simp: acceptance_def rejected_def or_else_def and_then_def
           split: sum.splits if_splits)

text \<open>
  Claim C10. A completed pass of the loop never increases \<open>\<bar>x1 - x0\<bar>\<close>: the
  point that replaces an endpoint is the midpoint or an accepted candidate, which
  lies between \<open>(3 * x0 + x1) / 4\<close> and \<open>x1\<close>, and the swap does not change the
  width.
\<close>

theorem body_width:
  assumes "body f tolerance s = Inr s'"
  shows "\<bar>x1 s' - x0 s'\<bar> \<le> \<bar>x1 s - x0 s\<bar>"
proof -
  from assms obtain new new' m where
    acc: "acceptance tolerance new (reeval f s) = Inr (new', m)" and
    s': "s' = advance f new' m (reeval f s)"
    by (auto simp: body_def Let_def split: sum.splits prod.splits)
  from acceptance_range [OF acc] advance_width [of new' "reeval f s" f m]
  have "\<bar>x1 s' - x0 s'\<bar> \<le> \<bar>x1 (reeval f s) - x0 (reeval f s)\<bar>"
    by (simp add: s')
  then show ?thesis by (simp add: reeval_def)
qed

theorem body_width_witness:
  "body (shifted (3 / 8)) (1 / 10 ^ 12)
     \<lparr>x0 = 1, x1 = 0, x2 = 1, d = None, fx0 = 5 / 8, fx1 = - (3 / 8), fx2 = 5 / 8,
      mflag = True, steps_taken = 0, calls = [0, 1]\<rparr> =
     Inr \<lparr>x0 = 1 / 2, x1 = 0, x2 = 0, d = Some 1, fx0 = 5 / 8, fx1 = - (3 / 8),
          fx2 = 5 / 8, mflag = True, steps_taken = 1, calls = [0, 1, 1, 0, 1, 1 / 2]\<rparr> \<and>
   \<bar>0 - 1 / 2\<bar> \<le> \<bar>0 - (1 :: real)\<bar>"
proof -
  have e: "body (shifted (3 / 8)) (1 / 10 ^ 12)
     \<lparr>x0 = 1, x1 = 0, x2 = 1, d = None, fx0 = 5 / 8, fx1 = - (3 / 8), fx2 = 5 / 8,
      mflag = True, steps_taken = 0, calls = [0, 1]\<rparr> =
     Inr \<lparr>x0 = 1 / 2, x1 = 0, x2 = 0, d = Some 1, fx0 = 5 / 8, fx1 = - (3 / 8),
          fx2 = 5 / 8, mflag = True, steps_taken = 1, calls = [0, 1, 1, 0, 1, 1 / 2]\<rparr>"
    by (simp add: body_eval shifted_def)
  from body_width [OF e] e show ?thesis by simp
qed

section \<open>Zero denominators\<close>

text \<open>
  Claim C8. A zero denominator is reached from a bracket with a strict sign
  change. For the step function on the bracket from \<open>0\<close> to \<open>1\<close>, with the default
  \<open>max_iter\<close> and \<open>tolerance\<close>, the third pass starts from \<open>x0 = 1\<close>, \<open>x1 = 3/4\<close>,
  \<open>x2 = 1\<close>; there \<open>f(x0) = f(x2)\<close>, so the secant branch is taken, and
  \<open>f(x1) - f(x0) = 0\<close>. Nothing guards the division: the candidate is the
  exception, and the call raises \<open>ZeroDivisionError\<close>.
\<close>

theorem zero_denominator_reached:
  "step 0 * step 1 < 0 \<and>
   passes step (1 / 10 ^ 12) 2 (start 0 1 (step 0) (step 1)) =
     Inr \<lparr>x0 = 1, x1 = 3 / 4, x2 = 1, d = Some 1, fx0 = 0, fx1 = 1,
          fx2 = 1, mflag = True, steps_taken = 2,
          calls = [0, 1, 0, 1, 0, 1 / 2, 1 / 2, 1, 1, 3 / 4]\<rparr> \<and>
   continue 50 (1 / 10 ^ 12)
     \<lparr>x0 = 1, x1 = 3 / 4, x2 = 1, d = Some 1, fx0 = 0, fx1 = 1,
      fx2 = 1, mflag = True, steps_taken = 2,
      calls = [0, 1, 0, 1, 0, 1 / 2, 1 / 2, 1, 1, 3 / 4]\<rparr> \<and>
   reeval step
     \<lparr>x0 = 1, x1 = 3 / 4, x2 = 1, d = Some 1, fx0 = 0, fx1 = 1,
      fx2 = 1, mflag = True, steps_taken = 2,
      calls = [0, 1, 0, 1, 0, 1 / 2, 1 / 2, 1, 1, 3 / 4]\<rparr> =
     \<lparr>x0 = 1, x1 = 3 / 4, x2 = 1, d = Some 1, fx0 = 1, fx1 = 1,
      fx2 = 1, mflag = True, steps_taken = 2,
      calls = [0, 1, 0, 1, 0, 1 / 2, 1 / 2, 1, 1, 3 / 4, 1, 3 / 4, 1]\<rparr> \<and>
   candidate
     \<lparr>x0 = 1, x1 = 3 / 4, x2 = 1, d = Some 1, fx0 = 1, fx1 = 1,
      fx2 = 1, mflag = True, steps_taken = 2,
      calls = [0, 1, 0, 1, 0, 1 / 2, 1 / 2, 1, 1, 3 / 4, 1, 3 / 4, 1]\<rparr> =
     Inl ZeroDivisionError \<and>
   brents step 0 1 50 (1 / 10 ^ 12) =
     Inl (ZeroDivisionError, [0, 1, 0, 1, 0, 1 / 2, 1 / 2, 1, 1, 3 / 4, 1, 3 / 4, 1])"
  by (simp add: numeral_2_eq_2 brents_def loop.simps body_eval continue_def start_def step_def)

section \<open>The swap of line 59\<close>

text \<open>
  Claim C1 fails on the code. For the line with root \<open>3/8\<close> on the bracket from
  \<open>0\<close> to \<open>1\<close> the loop is entered, and the first pass ends with \<open>x0 = 1/2\<close> and
  \<open>x1 = 0\<close>, although \<open>\<bar>f(1/2)\<bar> = 1/8\<close> is smaller than \<open>\<bar>f(0)\<bar> = 3/8\<close>: line 59
  compares the values \<open>fx0 = 5/8\<close> and \<open>fx1 = -3/8\<close> of the endpoints before the
  update, and does not swap.
\<close>

theorem swap_reads_stale_values:
  "shifted (3 / 8) 0 * shifted (3 / 8) 1 \<le> 0 \<and>
   continue 50 (1 / 10 ^ 12) (start 0 1 (shifted (3 / 8) 0) (shifted (3 / 8) 1)) \<and>
   body (shifted (3 / 8)) (1 / 10 ^ 12) (start 0 1 (shifted (3 / 8) 0) (shifted (3 / 8) 1)) =
     Inr \<lparr>x0 = 1 / 2, x1 = 0, x2 = 0, d = Some 1, fx0 = 5 / 8, fx1 = - (3 / 8),
          fx2 = 5 / 8, mflag = True, steps_taken = 1, calls = [0, 1, 1, 0, 1, 1 / 2]\<rparr> \<and>
   \<bar>shifted (3 / 8) (1 / 2)\<bar> < \<bar>shifted (3 / 8) 0\<bar>"
  by (simp add: body_eval continue_def start_def shifted_def)

section \<open>The sign change over the bracket\<close>

lemma advance_fields:
  "x0 (advance f new m s) =
     (if \<bar>fx0 s\<bar> < \<bar>fx1 s\<bar> then (if fx0 s * f new < 0 then new else x1 s)
      else (if fx0 s * f new < 0 then x0 s else new))"
  "x1 (advance f new m s) =
     (if \<bar>fx0 s\<bar> < \<bar>fx1 s\<bar> then (if fx0 s * f new < 0 then x0 s else new)
      else (if fx0 s * f new < 0 then new else x1 s))"
  by (simp_all add: advance_def Let_def)

text \<open>
  A pass keeps the sign change when \<open>f(x0)\<close> is not zero at its start. An endpoint
  \<open>x0\<close> that is a root is the one the bracket update of lines 54 to 57 gives up.
\<close>

lemma body_keeps_sign_change:
  assumes "body f tolerance s = Inr s'" and "f (x0 s) * f (x1 s) \<le> 0" and "f (x0 s) \<noteq> 0"
  shows "f (x0 s') * f (x1 s') \<le> 0"
proof -
  from assms(1) obtain new m where s': "s' = advance f new m (reeval f s)"
    by (auto simp: body_def Let_def split: sum.splits prod.splits)
  have r: "fx0 (reeval f s) = f (x0 s)" "fx1 (reeval f s) = f (x1 s)"
    "x0 (reeval f s) = x0 s" "x1 (reeval f s) = x1 s"
    by (simp_all add: reeval_def)
  have p: "f (x0 s) * f new < 0 \<Longrightarrow> f (x0 s) * f new \<le> 0" by simp
  have q: "\<not> f (x0 s) * f new < 0 \<Longrightarrow> f new * f (x1 s) \<le> 0"
  proof -
    assume "\<not> f (x0 s) * f new < 0"
    then have "0 \<le> f (x0 s) * f new" by simp
    with assms(2,3) show ?thesis
      by (auto simp: zero_le_mult_iff mult_le_0_iff)
  qed
  from p q show ?thesis
    by (auto simp: s' advance_fields r mult.commute)
qed

text \<open>
  Claim C9 fails on the code. For the line with root \<open>1/2\<close> on the bracket from
  \<open>0\<close> to \<open>1\<close> and \<open>max_iter = 3\<close>, the call passes the bracket check with a strict
  sign change and returns without a zero denominator, and its third pass starts
  from \<open>x0 = 1\<close> and \<open>x1 = 3/4\<close>, where \<open>f(x0) * f(x1) = 1/8\<close> is positive. The
  first pass puts the root \<open>1/2\<close> in \<open>x0\<close> and the swap of line 59, comparing the
  values of the endpoints before the update, leaves it there; the second pass
  replaces \<open>x0\<close> and the root is outside the bracket from then on.
\<close>

theorem bracket_sign_lost:
  "shifted (1 / 2) 0 * shifted (1 / 2) 1 < 0 \<and>
   passes (shifted (1 / 2)) (1 / 10 ^ 12) 2 (start 0 1 (shifted (1 / 2) 0) (shifted (1 / 2) 1)) =
     Inr \<lparr>x0 = 1, x1 = 3 / 4, x2 = 1, d = Some 1, fx0 = 0, fx1 = 1 / 2,
          fx2 = 1 / 2, mflag = True, steps_taken = 2,
          calls = [0, 1, 0, 1, 0, 1 / 2, 1 / 2, 1, 1, 3 / 4]\<rparr> \<and>
   continue 3 (1 / 10 ^ 12)
     \<lparr>x0 = 1, x1 = 3 / 4, x2 = 1, d = Some 1, fx0 = 0, fx1 = 1 / 2,
      fx2 = 1 / 2, mflag = True, steps_taken = 2,
      calls = [0, 1, 0, 1, 0, 1 / 2, 1 / 2, 1, 1, 3 / 4]\<rparr> \<and>
   shifted (1 / 2) 1 * shifted (1 / 2) (3 / 4) > 0 \<and>
   brents (shifted (1 / 2)) 0 1 3 (1 / 10 ^ 12) =
     Inr (3 / 4, 3, [0, 1, 0, 1, 0, 1 / 2, 1 / 2, 1, 1, 3 / 4, 1, 3 / 4, 1, 7 / 8])"
  by (simp add: numeral_2_eq_2 brents_def loop.simps body_eval continue_def start_def shifted_def)

text \<open>
  With the default \<open>max_iter = 50\<close> and \<open>tolerance = 1e-12\<close> the same call runs
  \<open>40\<close> passes and returns \<open>3/4\<close>, where the line has the value \<open>1/4\<close>.
\<close>

lemma linear_default_call:
  "(case brents (shifted (1 / 2)) 0 1 50 (1 / 10 ^ 12) of
      Inl e \<Rightarrow> False
    | Inr (x, n, cs) \<Rightarrow> x = 3 / 4 \<and> n = 40)"
  by (simp add: brents_def loop.simps continue_def body_eval start_def shifted_def)

section \<open>Facts about rounding\<close>

lemma rne_of_int: "rne (of_int z) = z"
  by (simp add: rne_def)

lemma rne_small: "\<bar>r\<bar> < 1 / 2 \<Longrightarrow> rne r = 0"
proof -
  assume a: "\<bar>r\<bar> < 1 / 2"
  show ?thesis
  proof (cases "0 \<le> r")
    case True
    with a have "\<lfloor>r\<rfloor> = 0" by (simp add: floor_eq_iff)
    with a True show ?thesis by (simp add: rne_def)
  next
    case False
    with a have "\<lfloor>r\<rfloor> = - 1" by (simp add: floor_eq_iff)
    with a False show ?thesis by (simp add: rne_def Let_def)
  qed
qed

lemma rne_upper: "rne r \<le> \<lfloor>r\<rfloor> + 1"
  by (simp add: rne_def Let_def)

lemma floor_log2_less:
  assumes "0 < x" and "x < 2 powi k"
  shows "\<lfloor>log 2 x\<rfloor> < k"
proof -
  have "log 2 x < log 2 (2 powi k)" using assms by simp
  also have "log 2 (2 powi k) = of_int k"
    by (simp add: powr_real_of_int' [symmetric])
  finally show ?thesis by (simp add: floor_less_iff)
qed

text \<open>
  A number with a significand of at most \<open>53\<close> bits and an exponent in range is
  a double, and rounding leaves it as it is.
\<close>

lemma round64_exact:
  assumes x: "x = of_int m * 2 powi k" and m: "\<bar>m\<bar> < 2 ^ 53" and k: "- 1074 \<le> k"
    and b: "\<bar>x\<bar> < 2 ^ 1024"
  shows "round64 x = Fin x"
proof (cases "x = 0")
  case True
  then show ?thesis by (simp add: round64_def)
next
  case False
  define e where "e = max \<lfloor>log 2 \<bar>x\<bar>\<rfloor> (- 1022)"
  define q :: real where "q = 2 powi (e - 52)"
  have "\<bar>x\<bar> = of_int \<bar>m\<bar> * 2 powi k" by (simp add: x abs_mult)
  also have "\<dots> < 2 ^ 53 * 2 powi k"
  proof -
    have "(of_int \<bar>m\<bar> :: real) < 2 ^ 53" using m by (metis of_int_less_numeral_power_cancel_iff)
    then show ?thesis by simp
  qed
  also have "\<dots> = 2 powi (53 + k)" by (simp add: power_int_add)
  finally have "\<bar>x\<bar> < 2 powi (53 + k)" .
  with False have "\<lfloor>log 2 \<bar>x\<bar>\<rfloor> < 53 + k" by (intro floor_log2_less) auto
  with k have ek: "e - 52 \<le> k" by (simp add: e_def)
  define j where "j = nat (k - (e - 52))"
  have kj: "k = (e - 52) + int j" using ek by (simp add: j_def)
  have "x / q = of_int m * (2 powi k / 2 powi (e - 52))" by (simp add: x q_def)
  also have "2 powi k / 2 powi (e - 52) = (2::real) ^ j"
    by (simp add: kj power_int_add)
  finally have xq: "x / q = of_int (m * 2 ^ j)" by simp
  have "of_int (rne (x / q)) * q = x / q * q" by (simp only: xq rne_of_int)
  also have "\<dots> = x" by (simp add: q_def)
  finally have y: "of_int (rne (x / q)) * q = x" .
  from False b y show ?thesis
    by (simp add: round64_def Let_def e_def [symmetric] q_def [symmetric])
qed

text \<open>A magnitude below half the smallest positive double rounds to zero.\<close>

lemma round64_underflow:
  assumes "\<bar>x\<bar> < 2 powi (- 1075)"
  shows "round64 x = Fin 0"
proof (cases "x = 0")
  case True
  then show ?thesis by (simp add: round64_def)
next
  case False
  with assms have "\<lfloor>log 2 \<bar>x\<bar>\<rfloor> < - 1075" by (intro floor_log2_less) auto
  then have e: "max \<lfloor>log 2 \<bar>x\<bar>\<rfloor> (- 1022) = - 1022" by simp
  have "\<bar>x / 2 powi (- 1074)\<bar> = \<bar>x\<bar> * 2 powi 1074" by (simp add: abs_mult power_int_minus field_simps)
  also have "\<dots> < 2 powi (- 1075) * 2 powi 1074" using assms by simp
  also have "\<dots> = (1 / 2 :: real)" by (simp add: power_int_minus)
  finally have "rne (x / 2 powi (- 1074)) = 0" by (rule rne_small)
  with False e show ?thesis by (simp add: round64_def Let_def)
qed

text \<open>Rounding does not turn a number that is zero or negative into a positive one.\<close>

lemma round64_nonpos:
  assumes "x \<le> 0"
  shows "\<not> flt (Fin 0) (round64 x)"
proof (cases "x = 0")
  case True
  then show ?thesis by (simp add: round64_def)
next
  case False
  with assms have neg: "x < 0" by simp
  define e where "e = max \<lfloor>log 2 \<bar>x\<bar>\<rfloor> (- 1022)"
  define q :: real where "q = 2 powi (e - 52)"
  have qpos: "q > 0" by (simp add: q_def)
  from neg qpos have "x / q < 0" by (simp add: divide_neg_pos)
  then have "\<lfloor>x / q\<rfloor> < 0" by (simp add: floor_less_iff)
  with rne_upper [of "x / q"] have "rne (x / q) \<le> 0" by linarith
  then have "(of_int (rne (x / q)) :: real) \<le> 0" by simp
  with qpos have y: "of_int (rne (x / q)) * q \<le> 0" by (simp add: mult_le_0_iff)
  have r: "round64 x = (if \<bar>of_int (rne (x / q)) * q\<bar> \<ge> 2 ^ 1024 then NInf
                        else Fin (of_int (rne (x / q)) * q))"
    using neg by (simp add: round64_def Let_def q_def e_def)
  show ?thesis
  proof (cases "\<bar>of_int (rne (x / q)) * q\<bar> \<ge> 2 ^ 1024")
    case True
    with r show ?thesis by simp
  next
    case False
    with r y show ?thesis by simp
  qed
qed

lemma fgt_zero_product:
  assumes "fgt (fmul (Fin p) (Fin q)) (Fin 0)"
  shows "p * q > 0"
proof (rule ccontr)
  assume "\<not> p * q > 0"
  then have "p * q \<le> 0" by simp
  from round64_nonpos [OF this] assms show False by (simp add: fgt_def)
qed

lemma not_fgt_cases: "\<not> fgt u v \<Longrightarrow> fle u v \<or> u = NaN \<or> v = NaN"
  by (cases u; cases v) (simp_all add: fgt_def)

lemma round64_int: "\<bar>m\<bar> < 2 ^ 53 \<Longrightarrow> round64 (of_int m) = Fin (of_int m)"
proof -
  assume m: "\<bar>m\<bar> < 2 ^ 53"
  then have "\<bar>of_int m :: real\<bar> < 2 ^ 53"
    by (metis of_int_abs of_int_less_numeral_power_cancel_iff)
  also have "(2 :: real) ^ 53 < 2 ^ 1024" by simp
  finally have b: "\<bar>of_int m :: real\<bar> < 2 ^ 1024" .
  show ?thesis by (rule round64_exact [where m = m and k = 0]) (use m b in simp_all)
qed

lemma round64_numerals:
  "round64 0 = Fin 0" "round64 1 = Fin 1" "round64 2 = Fin 2" "round64 (- 1) = Fin (- 1)"
  "round64 (- 2) = Fin (- 2)"
  using round64_int [of 0] round64_int [of 1] round64_int [of 2] round64_int [of "- 1"]
    round64_int [of "- 2"]
  by simp_all

lemma round64_fractions:
  "round64 (1 / 2) = Fin (1 / 2)" "round64 (1 / 4) = Fin (1 / 4)"
proof -
  show "round64 (1 / 2) = Fin (1 / 2)"
    by (rule round64_exact [where m = 1 and k = "- 1"]) (simp_all add: power_int_minus)
  show "round64 (1 / 4) = Fin (1 / 4)"
    by (rule round64_exact [where m = 1 and k = "- 2"]) (simp_all add: power_int_minus)
qed

lemma eps600_pos: "0 < eps600"
  by (simp add: eps600_def)

lemma round64_eps600:
  "round64 eps600 = Fin eps600" "round64 (eps600 * 2) = Fin (eps600 * 2)"
proof -
  show "round64 eps600 = Fin eps600"
    by (rule round64_exact [where m = 1 and k = "- 600"])
       (simp_all add: eps600_def power_int_minus field_simps)
  show "round64 (eps600 * 2) = Fin (eps600 * 2)"
    by (rule round64_exact [where m = 2 and k = "- 600"])
       (simp_all add: eps600_def power_int_minus field_simps)
qed

lemma round64_eps600_product: "round64 (eps600 * (eps600 * 2)) = Fin 0"
  by (rule round64_underflow) (simp add: eps600_def power_int_minus field_simps)

lemma tiny_values: "tiny (Fin 0) = Fin eps600" "tiny (Fin 1) = Fin (eps600 * 2)"
  by (simp_all add: tiny_def round64_numerals round64_eps600)

lemma parabola64_values: "parabola64 (Fin 0) = Fin 0" "parabola64 (Fin 1) = Fin 0"
  by (simp_all add: parabola64_def fsub_def round64_numerals)

lemma shifted64_values:
  "shifted64 2 (Fin 0) = Fin (- 2)" "shifted64 2 (Fin 1) = Fin (- 1)"
  "shifted64 1 (Fin 0) = Fin (- 1)" "shifted64 1 (Fin 2) = Fin 1"
  by (simp_all add: shifted64_def fsub_def round64_numerals)

lemma rne_ge: "of_int z \<le> r \<Longrightarrow> z \<le> rne r"
proof -
  assume "of_int z \<le> r"
  then have "z \<le> \<lfloor>r\<rfloor>" by (simp add: le_floor_iff)
  moreover have "\<lfloor>r\<rfloor> \<le> rne r" by (simp add: rne_def Let_def)
  ultimately show ?thesis by simp
qed

lemma rne_le: "r \<le> of_int z \<Longrightarrow> rne r \<le> z"
proof (cases "r = of_int z")
  case True
  then show ?thesis by (simp add: rne_of_int)
next
  case False
  assume "r \<le> of_int z"
  with False have "r < of_int z" by simp
  then have "\<lfloor>r\<rfloor> < z" by (simp add: floor_less_iff)
  with rne_upper [of r] show ?thesis by linarith
qed

lemma floor_log2_ge:
  assumes "2 powi k \<le> x"
  shows "k \<le> \<lfloor>log 2 x\<rfloor>"
proof -
  have pos: "0 < x" using assms by (smt (verit) zero_less_power_int)
  have "of_int k = log 2 (2 powi k)" by (simp add: powr_real_of_int' [symmetric])
  also have "\<dots> \<le> log 2 x" using assms pos by simp
  finally show ?thesis by (simp add: le_floor_iff)
qed

lemma powi_floor_log2_le:
  assumes "0 < x"
  shows "2 powi \<lfloor>log 2 x\<rfloor> \<le> x"
proof -
  have "2 powr (of_int \<lfloor>log 2 x\<rfloor>) \<le> 2 powr (log 2 x)"
    by (simp add: powr_le_cancel_iff)
  also have "\<dots> = x" using assms by simp
  finally show ?thesis by (simp add: powr_real_of_int')
qed

text \<open>A magnitude of \<open>2 ^ 1024\<close> or more rounds to an infinity.\<close>

lemma round64_overflow:
  assumes "2 ^ 1024 \<le> \<bar>x\<bar>"
  shows "round64 x = (if x > 0 then PInf else NInf)"
proof -
  have nz: "x \<noteq> 0" using assms by auto
  define L where "L = \<lfloor>log 2 \<bar>x\<bar>\<rfloor>"
  define q :: real where "q = 2 powi (L - 52)"
  have "2 powi 1024 \<le> \<bar>x\<bar>" using assms by simp
  then have L: "1024 \<le> L" unfolding L_def by (rule floor_log2_ge)
  then have e: "max L (- 1022) = L" by simp
  have qpos: "0 < q" by (simp add: q_def)
  have Lx: "2 powi L \<le> \<bar>x\<bar>" unfolding L_def using nz by (intro powi_floor_log2_le) simp
  have LL: "(2 :: real) powi L = 2 ^ 52 * q" by (simp add: q_def power_int_diff)
  have "(2 :: real) ^ 52 * q \<le> \<bar>x\<bar>" using Lx LL by simp
  then have "(2 :: real) ^ 52 \<le> \<bar>x\<bar> / q" using qpos by (simp add: pos_le_divide_eq)
  then have r: "2 ^ 52 \<le> \<bar>x / q\<bar>" using qpos by simp
  have big: "2 ^ 52 \<le> \<bar>rne (x / q)\<bar>"
  proof (cases "0 \<le> x / q")
    case True
    with r have "of_int (2 ^ 52) \<le> x / q" by simp
    from rne_ge [OF this] show ?thesis by linarith
  next
    case False
    with r have "x / q \<le> of_int (- (2 ^ 52))" by simp
    from rne_le [OF this] show ?thesis by linarith
  qed
  have "(2 :: real) powi 1024 \<le> 2 powi L" using L by (intro power_int_increasing) simp_all
  then have "(2 :: real) ^ 1024 \<le> 2 ^ 52 * q" using LL by simp
  also have "\<dots> \<le> of_int \<bar>rne (x / q)\<bar> * q"
  proof -
    from big have "(of_int (2 ^ 52) :: real) \<le> of_int \<bar>rne (x / q)\<bar>"
      by (simp only: of_int_le_iff)
    then have "(2 :: real) ^ 52 \<le> of_int \<bar>rne (x / q)\<bar>" by simp
    then show ?thesis using qpos by (simp only: mult_le_cancel_right_pos)
  qed
  also have "\<dots> = \<bar>of_int (rne (x / q)) * q\<bar>" using qpos by (simp add: abs_mult)
  finally have y: "2 ^ 1024 \<le> \<bar>of_int (rne (x / q)) * q\<bar>" .
  have "round64 x = (if 2 ^ 1024 \<le> \<bar>of_int (rne (x / q)) * q\<bar>
                     then (if x > 0 then PInf else NInf)
                     else Fin (of_int (rne (x / q)) * q))"
    using nz e by (simp only: round64_def Let_def q_def L_def if_False)
  with y show ?thesis by (simp only: if_True)
qed

text \<open>Rounding a positive number gives zero, a positive double or the infinity.\<close>

lemma round64_pos:
  assumes "0 < x" and "round64 x \<noteq> Fin 0"
  shows "flt (Fin 0) (round64 x)"
proof -
  define e where "e = max \<lfloor>log 2 \<bar>x\<bar>\<rfloor> (- 1022)"
  define q :: real where "q = 2 powi (e - 52)"
  have qpos: "q > 0" by (simp add: q_def)
  from assms(1) qpos have "of_int 0 \<le> x / q" by simp
  from rne_ge [OF this] have "(0 :: real) \<le> of_int (rne (x / q))" by simp
  with qpos have y: "0 \<le> of_int (rne (x / q)) * q" by simp
  have r: "round64 x = (if \<bar>of_int (rne (x / q)) * q\<bar> \<ge> 2 ^ 1024 then PInf
                        else Fin (of_int (rne (x / q)) * q))"
    using assms(1) by (simp add: round64_def Let_def q_def e_def)
  show ?thesis
  proof (cases "\<bar>of_int (rne (x / q)) * q\<bar> \<ge> 2 ^ 1024")
    case True
    with r show ?thesis by simp
  next
    case False
    with r have v: "round64 x = Fin (of_int (rne (x / q)) * q)" by simp
    with assms(2) have "of_int (rne (x / q)) * q \<noteq> 0" by simp
    with y have "0 < of_int (rne (x / q)) * q" by (simp only: less_le) simp
    with v show ?thesis by simp
  qed
qed

lemma fgt_product_positive:
  assumes "p * q > 0" and "fmul (Fin p) (Fin q) \<noteq> Fin 0"
  shows "fgt (fmul (Fin p) (Fin q)) (Fin 0)"
  using round64_pos [of "p * q"] assms by (simp add: fgt_def)

lemma big_pos: "0 < big" by (simp add: big_def)

lemma round64_big:
  assumes "c = of_int m * 2 powi k" and "\<bar>m\<bar> < 2 ^ 53" and "- 2000 \<le> k" and "\<bar>c\<bar> \<le> 2 ^ 26"
  shows "round64 (c * big) = Fin (c * big)"
proof (rule round64_exact [where m = m and k = "k + 997"])
  show "c * big = of_int m * 2 powi (k + 997)"
    by (simp add: assms(1) big_def power_int_add)
  show "\<bar>m\<bar> < 2 ^ 53" by fact
  show "- 1074 \<le> k + 997" using assms(3) by simp
  have "\<bar>c * big\<bar> = \<bar>c\<bar> * big" using big_pos by (simp add: abs_mult)
  also have "\<dots> \<le> 2 ^ 26 * big" using assms(4) big_pos by simp
  also have "\<dots> < 2 ^ 1024" by (simp add: big_def)
  finally show "\<bar>c * big\<bar> < 2 ^ 1024" .
qed

lemma round64_big_sq:
  assumes "1 / 2 ^ 20 \<le> \<bar>c\<bar>"
  shows "round64 (c * (big * big)) = (if c > 0 then PInf else NInf)"
proof -
  have bb: "big * big = 2 ^ 1994" by (simp add: big_def flip: power_add)
  have "(2 :: real) ^ 1024 = 1 / 2 ^ 20 * 2 ^ 1044" by (simp flip: power_add)
  also have "\<dots> \<le> \<bar>c\<bar> * 2 ^ 1044" using assms by (simp only: mult_le_cancel_right_pos zero_less_power zero_less_numeral)
  also have "\<dots> \<le> \<bar>c\<bar> * 2 ^ 1994" by (intro mult_left_mono power_increasing) simp_all
  also have "\<dots> = \<bar>c * (big * big)\<bar>" by (simp add: bb abs_mult)
  finally have "2 ^ 1024 \<le> \<bar>c * (big * big)\<bar>" .
  from round64_overflow [OF this] big_pos show ?thesis
    by (simp add: zero_less_mult_iff)
qed

lemma round64_more:
  "round64 3 = Fin 3"
  "round64 (3 / 2) = Fin (3 / 2)" "round64 (3 / 4) = Fin (3 / 4)"
  "round64 (3 / 8) = Fin (3 / 8)" "round64 (- (3 / 8)) = Fin (- (3 / 8))"
  "round64 (1 / 8) = Fin (1 / 8)" "round64 (- (1 / 8)) = Fin (- (1 / 8))"
  "round64 (5 / 8) = Fin (5 / 8)" "round64 (- (1 / 2)) = Fin (- (1 / 2))"
proof -
  show "round64 3 = Fin 3" using round64_int [of 3] by simp
  show "round64 (3 / 2) = Fin (3 / 2)"
    by (rule round64_exact [where m = 3 and k = "- 1"]) (simp_all add: power_int_minus)
  show "round64 (3 / 4) = Fin (3 / 4)"
    by (rule round64_exact [where m = 3 and k = "- 2"]) (simp_all add: power_int_minus)
  show "round64 (3 / 8) = Fin (3 / 8)"
    by (rule round64_exact [where m = 3 and k = "- 3"]) (simp_all add: power_int_minus)
  show "round64 (- (3 / 8)) = Fin (- (3 / 8))"
    by (rule round64_exact [where m = "- 3" and k = "- 3"]) (simp_all add: power_int_minus)
  show "round64 (1 / 8) = Fin (1 / 8)"
    by (rule round64_exact [where m = 1 and k = "- 3"]) (simp_all add: power_int_minus)
  show "round64 (- (1 / 8)) = Fin (- (1 / 8))"
    by (rule round64_exact [where m = "- 1" and k = "- 3"]) (simp_all add: power_int_minus)
  show "round64 (5 / 8) = Fin (5 / 8)"
    by (rule round64_exact [where m = 5 and k = "- 3"]) (simp_all add: power_int_minus)
  show "round64 (- (1 / 2)) = Fin (- (1 / 2))"
    by (rule round64_exact [where m = "- 1" and k = "- 1"]) (simp_all add: power_int_minus)
qed

lemma round64_big_multiples:
  "round64 big = Fin big" "round64 (- big) = Fin (- big)"
  "round64 (3 * big) = Fin (3 * big)" "round64 (- (3 * big)) = Fin (- (3 * big))"
  "round64 (5 * big) = Fin (5 * big)"
  "round64 (- (8 * big)) = Fin (- (8 * big))"
  "round64 (2 * big) = Fin (2 * big)" "round64 (- (2 * big)) = Fin (- (2 * big))"
  "round64 (4 * big) = Fin (4 * big)" "round64 (- (4 * big)) = Fin (- (4 * big))"
  "round64 (big / 4) = Fin (big / 4)" "round64 (- (big / 2)) = Fin (- (big / 2))"
  "round64 (3 * big / 2) = Fin (3 * big / 2)"
  using round64_big [of 1 1 0] round64_big [of "- 1" "- 1" 0]
    round64_big [of 3 3 0] round64_big [of "- 3" "- 3" 0]
    round64_big [of 5 5 0] round64_big [of "- 8" "- 8" 0]
    round64_big [of 2 2 0] round64_big [of "- 2" "- 2" 0]
    round64_big [of 4 4 0] round64_big [of "- 4" "- 4" 0]
    round64_big [of "1 / 4" 1 "- 2"] round64_big [of "- (1 / 2)" "- 1" "- 1"]
    round64_big [of "3 / 2" 3 "- 1"]
  by (simp_all add: power_int_minus)

lemma round64_big_products:
  "round64 (5 * big * big) = PInf"
  "round64 (- (15 * (big * big))) = NInf"
  "round64 (- (big * big)) = NInf"
  "round64 (- (4 * (big * big))) = NInf"
  "round64 (8 * (big * big)) = PInf"
  using round64_big_sq [of 5] round64_big_sq [of "- 15"] round64_big_sq [of "- 1"]
    round64_big_sq [of "- 4"] round64_big_sq [of 8]
  by (simp_all add: mult.assoc)

lemma round64_big_products_frac:
  "round64 (- (big * (3 * big) / 4)) = NInf"
  "round64 (big * (3 * big) / 2) = PInf"
proof -
  have a: "- (big * (3 * big) / 4) = - (3 / 4) * (big * big)" by simp
  show "round64 (- (big * (3 * big) / 4)) = NInf"
    unfolding a using round64_big_sq [of "- (3 / 4)"] by simp
  have b: "big * (3 * big) / 2 = 3 / 2 * (big * big)" by simp
  show "round64 (big * (3 * big) / 2) = PInf"
    unfolding b using round64_big_sq [of "3 / 2"] by simp
qed

lemma round64_quarters:
  "round64 (5 / 4) = Fin (5 / 4)" "round64 (5 / 16) = Fin (5 / 16)"
proof -
  show "round64 (5 / 4) = Fin (5 / 4)"
    by (rule round64_exact [where m = 5 and k = "- 2"]) (simp_all add: power_int_minus)
  show "round64 (5 / 16) = Fin (5 / 16)"
    by (rule round64_exact [where m = 5 and k = "- 4"]) (simp_all add: power_int_minus)
qed

lemma steep_values:
  "steep (Fin 0) = Fin (- (3 * big))" "steep (Fin 1) = Fin (5 * big)"
  "steep (Fin (1 / 2)) = Fin big" "steep (Fin (1 / 4)) = Fin (- big)" "steep NaN = NaN"
  by (simp_all add: steep_def fsub_def round64_more round64_big_multiples)

section \<open>Facts about the double-precision embedding\<close>

lemmas body64_eval = body64_def reeval64_def candidate64_def truediv64_def acceptance64_def
  rejected64_def or_else_def and_then_def read_d64_def advance64_def Let_def
  fsub_def fgt_def fge_def fne_def

lemma candidate64_raises:
  "candidate64 s = Inl e \<Longrightarrow> e = ZeroDivisionError"
  by (auto simp: candidate64_def truediv64_def split: if_splits sum.splits)

lemma rejected64_bound:
  "d_bound64 s \<Longrightarrow> \<exists>r. rejected64 tolerance new s = Inr r"
  by (cases "d_f s")
     (auto simp: d_bound64_def rejected64_def or_else_def and_then_def read_d64_def)

lemma acceptance64_bound:
  assumes "d_bound64 s"
  shows "\<exists>p. acceptance64 tolerance new s = Inr p"
proof -
  from rejected64_bound [OF assms] obtain r where "rejected64 tolerance new s = Inr r" by blast
  then have "acceptance64 tolerance new s =
      Inr (if r then (fquot (fadd (x0_f s) (x1_f s)) (Fin 2), True) else (new, False))"
    by (simp add: acceptance64_def)
  then show ?thesis by blast
qed

lemma d_bound64_reeval: "d_bound64 (reeval64 f s) = d_bound64 s"
  by (simp add: d_bound64_def reeval64_def)

lemma d_advance64: "d_f (advance64 f new m s) = Some (x2_f s)"
  by (simp add: advance64_def Let_def)

lemma body64_raises:
  assumes "d_bound64 s" and "body64 f tolerance s = Inl (e, cs)"
  shows "e = ZeroDivisionError"
proof (cases "candidate64 (reeval64 f s)")
  case (Inl e')
  with assms(2) candidate64_raises [OF Inl] show ?thesis by (simp add: body64_def Let_def)
next
  case (Inr new)
  from assms(1) have "d_bound64 (reeval64 f s)" by (simp add: d_bound64_reeval)
  from acceptance64_bound [OF this] obtain p
    where "acceptance64 tolerance new (reeval64 f s) = Inr p" by blast
  with Inr assms(2) show ?thesis by (simp add: body64_def Let_def split: prod.splits)
qed

lemma body64_d_bound:
  "body64 f tolerance s = Inr s' \<Longrightarrow> d_bound64 s'"
  by (auto simp: body64_def Let_def d_bound64_def d_advance64 split: sum.splits prod.splits)

lemma body64_never_ValueError:
  "body64 f tolerance s \<noteq> Inl (ValueError, cs)"
  by (auto simp: body64_def Let_def acceptance64_def rejected64_def or_else_def and_then_def
        read_d64_def split: sum.splits prod.splits option.splits if_splits
        dest: candidate64_raises)

lemma body64_steps_taken:
  "body64 f tolerance s = Inr s' \<Longrightarrow> steps_taken_f s' = steps_taken_f s + 1"
  by (auto simp: body64_def advance64_def reeval64_def Let_def
        split: sum.splits prod.splits if_splits)

lemma body64_calls:
  "body64 f tolerance s = Inr s' \<Longrightarrow> length (calls_f s') = length (calls_f s) + 4"
  by (auto simp: body64_def advance64_def reeval64_def Let_def
        split: sum.splits prod.splits if_splits)

lemma loop64_raises:
  "d_bound64 s \<Longrightarrow> loop64 f max_iter tolerance s = Inl (e, cs) \<Longrightarrow> e = ZeroDivisionError"
proof (induction f max_iter tolerance s rule: loop64.induct)
  case (1 f max_iter tolerance s)
  show ?case
  proof (cases "continue64 max_iter tolerance s")
    case False
    with "1.prems" show ?thesis by (simp add: loop64.simps)
  next
    case True
    show ?thesis
    proof (cases "body64 f tolerance s")
      case (Inl p)
      with True "1.prems" have "p = (e, cs)" by (simp add: loop64.simps)
      with Inl "1.prems" show ?thesis by (auto dest: body64_raises)
    next
      case (Inr s')
      with True "1.prems" have "loop64 f max_iter tolerance s' = Inl (e, cs)"
        by (simp add: loop64.simps)
      with "1.IH" [OF True Inr] Inr show ?thesis by (auto dest: body64_d_bound)
    qed
  qed
qed

lemma loop64_never_ValueError:
  "loop64 f max_iter tolerance s \<noteq> Inl (ValueError, cs)"
proof (induction f max_iter tolerance s rule: loop64.induct)
  case (1 f max_iter tolerance s)
  show ?case
  proof (cases "continue64 max_iter tolerance s")
    case False
    then show ?thesis by (simp add: loop64.simps)
  next
    case True
    show ?thesis
    proof (cases "body64 f tolerance s")
      case (Inl p)
      with True body64_never_ValueError [of f tolerance s cs] show ?thesis
        by (simp add: loop64.simps)
    next
      case (Inr s')
      with True "1.IH" [OF True Inr] show ?thesis by (simp add: loop64.simps)
    qed
  qed
qed

lemma loop64_returns:
  "loop64 f max_iter tolerance s = Inr s' \<Longrightarrow>
     \<exists>n. passes64 f tolerance n s = Inr s' \<and>
         steps_taken_f s' = steps_taken_f s + int n \<and>
         \<not> continue64 max_iter tolerance s' \<and>
         (steps_taken_f s \<le> max_iter \<longrightarrow> steps_taken_f s' \<le> max_iter) \<and>
         (\<forall>k<n. \<exists>t. passes64 f tolerance k s = Inr t \<and> continue64 max_iter tolerance t)"
proof (induction f max_iter tolerance s rule: loop64.induct)
  case (1 f max_iter tolerance s)
  show ?case
  proof (cases "continue64 max_iter tolerance s")
    case False
    with "1.prems" have "s' = s" by (simp add: loop64.simps)
    with False have "passes64 f tolerance 0 s = Inr s' \<and>
         steps_taken_f s' = steps_taken_f s + int 0 \<and>
         \<not> continue64 max_iter tolerance s' \<and>
         (steps_taken_f s \<le> max_iter \<longrightarrow> steps_taken_f s' \<le> max_iter) \<and>
         (\<forall>k<0. \<exists>t. passes64 f tolerance k s = Inr t \<and> continue64 max_iter tolerance t)"
      by simp
    then show ?thesis by blast
  next
    case True
    show ?thesis
    proof (cases "body64 f tolerance s")
      case (Inl p)
      with True "1.prems" show ?thesis by (simp add: loop64.simps)
    next
      case (Inr s1)
      with True "1.prems" have run: "loop64 f max_iter tolerance s1 = Inr s'"
        by (simp add: loop64.simps)
      from body64_steps_taken [OF Inr] have st: "steps_taken_f s1 = steps_taken_f s + 1" .
      from True have lt: "steps_taken_f s < max_iter" by (simp add: continue64_def)
      from "1.IH" [OF True Inr run] obtain n where
        n: "passes64 f tolerance n s1 = Inr s'"
           "steps_taken_f s' = steps_taken_f s1 + int n"
           "\<not> continue64 max_iter tolerance s'"
           "steps_taken_f s1 \<le> max_iter \<longrightarrow> steps_taken_f s' \<le> max_iter"
           "\<forall>k<n. \<exists>t. passes64 f tolerance k s1 = Inr t \<and> continue64 max_iter tolerance t"
        by blast
      have a: "passes64 f tolerance (Suc n) s = Inr s'" using Inr n(1) by simp
      have b: "steps_taken_f s' = steps_taken_f s + int (Suc n)" using n(2) st by simp
      have c: "steps_taken_f s \<le> max_iter \<longrightarrow> steps_taken_f s' \<le> max_iter"
        using n(4) st lt by simp
      have e: "\<forall>k<Suc n. \<exists>t. passes64 f tolerance k s = Inr t \<and> continue64 max_iter tolerance t"
      proof (intro allI impI)
        fix k assume "k < Suc n"
        show "\<exists>t. passes64 f tolerance k s = Inr t \<and> continue64 max_iter tolerance t"
        proof (cases k)
          case 0
          with True show ?thesis by simp
        next
          case (Suc j)
          with \<open>k < Suc n\<close> have "j < n" by simp
          with n(5) Suc Inr show ?thesis by simp
        qed
      qed
      from a b n(3) c e show ?thesis by blast
    qed
  qed
qed

lemma passes64_calls:
  "passes64 f tolerance n s = Inr s' \<Longrightarrow> length (calls_f s') = length (calls_f s) + 4 * n"
proof (induction n arbitrary: s)
  case 0
  then show ?case by simp
next
  case (Suc n)
  then obtain s1 where s1: "body64 f tolerance s = Inr s1" "passes64 f tolerance n s1 = Inr s'"
    by (auto split: sum.splits)
  from Suc.IH [OF s1(2)] body64_calls [OF s1(1)] show ?case by simp
qed

lemma start64_simps:
  "steps_taken_f (start64 a b fa fb) = 0" "mflag_f (start64 a b fa fb)"
  "calls_f (start64 a b fa fb) = [a, b]"
  by (simp_all add: start64_def)

lemma brents64_unfold:
  "brents64 f a b max_iter tolerance =
     (if fgt (fmul (f a) (f b)) (Fin 0) then Inl (ValueError, [a, b])
      else (case loop64 f max_iter tolerance (start64 a b (f a) (f b)) of
              Inl e \<Rightarrow> Inl e
            | Inr s \<Rightarrow> Inr (x1_f s, steps_taken_f s, calls_f s)))"
  by (simp add: brents64_def Let_def)

section \<open>The bracket check\<close>

text \<open>
  Claim C4, as stated, fails. The values of the objective at \<open>0\<close> and \<open>1\<close> are the
  doubles \<open>2\<close> to the power \<open>-600\<close> and \<open>-599\<close>; both are positive and so is their
  product, but line 12 tests the double-precision product, which underflows to
  zero. The call raises nothing: with \<open>max_iter = 0\<close> it returns \<open>(0.0, 0)\<close>.
\<close>

theorem underflow_passes_check:
  "tiny (Fin 0) = Fin eps600 \<and> tiny (Fin 1) = Fin (eps600 * 2) \<and>
   eps600 * (eps600 * 2) > 0 \<and>
   fmul (tiny (Fin 0)) (tiny (Fin 1)) = Fin 0 \<and>
   brents64 tiny (Fin 0) (Fin 1) 0 (Fin (1 / 2 ^ 40)) = Inr (Fin 0, 0, [Fin 0, Fin 1])"
  using eps600_pos
  by (simp add: tiny_values brents64_def fgt_def round64_eps600_product loop64.simps
        continue64_def start64_def)

text \<open>
  Claim C4, amended. When the product of \<open>f(x0)\<close> and \<open>f(x1)\<close> computed in double
  precision is greater than zero, the call raises the \<open>ValueError\<close> of the bracket
  check and \<open>f\<close> has been called exactly twice, at \<open>x0\<close> and at \<open>x1\<close>. Otherwise
  (the computed product is zero, negative or nan) the call continues with the loop,
  entered in the normalised state with those two calls logged, and whatever
  happens there the bracket error is not raised. Two finite values whose exact
  product is zero or negative always take the second path, and two finite values
  whose exact product is positive take the first unless their product underflows
  to zero.
\<close>

theorem brents64_bracket_check:
  "(fgt (fmul (f a) (f b)) (Fin 0) \<longrightarrow>
      brents64 f a b max_iter tolerance = Inl (ValueError, [a, b])) \<and>
   (\<not> fgt (fmul (f a) (f b)) (Fin 0) \<longrightarrow>
      calls_f (start64 a b (f a) (f b)) = [a, b] \<and>
      brents64 f a b max_iter tolerance =
        (case loop64 f max_iter tolerance (start64 a b (f a) (f b)) of
           Inl e \<Rightarrow> Inl e
         | Inr s \<Rightarrow> Inr (x1_f s, steps_taken_f s, calls_f s)) \<and>
      (\<forall>cs. brents64 f a b max_iter tolerance \<noteq> Inl (ValueError, cs))) \<and>
   (\<forall>p q. f a = Fin p \<and> f b = Fin q \<and> p * q \<le> 0 \<longrightarrow> \<not> fgt (fmul (f a) (f b)) (Fin 0)) \<and>
   (\<forall>p q. f a = Fin p \<and> f b = Fin q \<and> p * q > 0 \<and> fmul (f a) (f b) \<noteq> Fin 0 \<longrightarrow>
          fgt (fmul (f a) (f b)) (Fin 0))"
proof (intro conjI impI allI)
  assume "fgt (fmul (f a) (f b)) (Fin 0)"
  then show "brents64 f a b max_iter tolerance = Inl (ValueError, [a, b])"
    by (simp add: brents64_unfold)
next
  assume le: "\<not> fgt (fmul (f a) (f b)) (Fin 0)"
  show "calls_f (start64 a b (f a) (f b)) = [a, b]" by (simp add: start64_simps)
  from le show eq: "brents64 f a b max_iter tolerance =
        (case loop64 f max_iter tolerance (start64 a b (f a) (f b)) of
           Inl e \<Rightarrow> Inl e
         | Inr s \<Rightarrow> Inr (x1_f s, steps_taken_f s, calls_f s))"
    by (simp add: brents64_unfold)
  fix cs
  show "brents64 f a b max_iter tolerance \<noteq> Inl (ValueError, cs)"
  proof (cases "loop64 f max_iter tolerance (start64 a b (f a) (f b))")
    case (Inl p)
    with loop64_never_ValueError [of f max_iter tolerance "start64 a b (f a) (f b)" cs]
    show ?thesis by (simp add: eq)
  next
    case (Inr s)
    then show ?thesis by (simp add: eq)
  qed
next
  fix p q
  assume h: "f a = Fin p \<and> f b = Fin q \<and> p * q \<le> 0"
  then have "\<not> p * q > 0" by simp
  with fgt_zero_product [of p q] h show "\<not> fgt (fmul (f a) (f b)) (Fin 0)" by auto
next
  fix p q
  assume h: "f a = Fin p \<and> f b = Fin q \<and> p * q > 0 \<and> fmul (f a) (f b) \<noteq> Fin 0"
  with fgt_product_positive [of p q] show "fgt (fmul (f a) (f b)) (Fin 0)" by auto
qed

theorem brents64_bracket_check_witness:
  "fgt (fmul (shifted64 2 (Fin 0)) (shifted64 2 (Fin 1))) (Fin 0) \<and>
   brents64 (shifted64 2) (Fin 0) (Fin 1) 50 (Fin (1 / 2 ^ 40)) =
     Inl (ValueError, [Fin 0, Fin 1]) \<and>
   shifted64 1 (Fin 0) = Fin (- 1) \<and> shifted64 1 (Fin 2) = Fin 1 \<and> (- 1 :: real) * 1 \<le> 0 \<and>
   \<not> fgt (fmul (shifted64 1 (Fin 0)) (shifted64 1 (Fin 2))) (Fin 0) \<and>
   (\<forall>cs. brents64 (shifted64 1) (Fin 0) (Fin 2) 50 (Fin (1 / 2 ^ 40)) \<noteq> Inl (ValueError, cs)) \<and>
   shifted64 2 (Fin 0) = Fin (- 2) \<and> shifted64 2 (Fin 1) = Fin (- 1) \<and>
   (- 2 :: real) * (- 1) > 0 \<and>
   fmul (shifted64 2 (Fin 0)) (shifted64 2 (Fin 1)) \<noteq> Fin 0"
proof -
  note t2 = brents64_bracket_check [of "shifted64 2" "Fin 0" "Fin 1" 50 "Fin (1 / 2 ^ 40)"]
  have w: "shifted64 2 (Fin 0) = Fin (- 2) \<and> shifted64 2 (Fin 1) = Fin (- 1) \<and>
      (- 2 :: real) * (- 1) > 0 \<and> fmul (shifted64 2 (Fin 0)) (shifted64 2 (Fin 1)) \<noteq> Fin 0"
    by (simp add: shifted64_values round64_numerals)
  from w t2 have p: "fgt (fmul (shifted64 2 (Fin 0)) (shifted64 2 (Fin 1))) (Fin 0)" by blast
  have v: "shifted64 1 (Fin 0) = Fin (- 1) \<and> shifted64 1 (Fin 2) = Fin 1 \<and> (- 1 :: real) * 1 \<le> 0"
    by (simp add: shifted64_values)
  from p t2
  have r: "brents64 (shifted64 2) (Fin 0) (Fin 1) 50 (Fin (1 / 2 ^ 40)) =
     Inl (ValueError, [Fin 0, Fin 1])" by blast
  note t = brents64_bracket_check [of "shifted64 1" "Fin 0" "Fin 2" 50 "Fin (1 / 2 ^ 40)"]
  from v t have n: "\<not> fgt (fmul (shifted64 1 (Fin 0)) (shifted64 1 (Fin 2))) (Fin 0)" by blast
  from n t
  have q: "\<forall>cs. brents64 (shifted64 1) (Fin 0) (Fin 2) 50 (Fin (1 / 2 ^ 40)) \<noteq> Inl (ValueError, cs)"
    by blast
  from p r v n q w show ?thesis by blast
qed

section \<open>Termination and the returned pair\<close>

text \<open>
  Claim C5, as stated, fails. The parabola has a root at each endpoint of the
  bracket from \<open>0\<close> to \<open>1\<close>, so the bracket check passes (the product is not
  positive); the first pass takes the secant branch and divides by
  \<open>f(x1) - f(x0) = 0\<close>, a division that nothing guards. The call raises
  \<open>ZeroDivisionError\<close> and returns no pair.
\<close>

theorem double_root_call_raises64:
  "\<not> fgt (fmul (parabola64 (Fin 0)) (parabola64 (Fin 1))) (Fin 0) \<and>
   brents64 parabola64 (Fin 0) (Fin 1) 50 (Fin (1 / 2 ^ 40)) =
     Inl (ZeroDivisionError, [Fin 0, Fin 1, Fin 0, Fin 1, Fin 0])"
  by (simp add: parabola64_values brents64_def loop64.simps continue64_def start64_def
        body64_eval round64_numerals)

text \<open>
  A nan ends the loop as well. For the line \<open>2 ^ 1000 * (x - 3/8)\<close> on the
  bracket from \<open>0\<close> to \<open>1\<close> with \<open>max_iter = 4\<close>, the products of line 32 and
  line 33 overflow in the third pass, the quotients of two infinities are nan and
  so is the candidate. Every comparison of lines 40 to 44 with it is false, so it
  is accepted and becomes \<open>x0\<close>, and the test \<open>abs(x1 - x0) > tolerance\<close> of line
  26 is false: the call returns \<open>(0.5, 3)\<close>, with less than \<open>max_iter\<close> passes and a
  width that is not below the tolerance.
\<close>

lemma steep_start: "start64 (Fin 0) (Fin 1) (steep (Fin 0)) (steep (Fin 1)) =
  \<lparr>x0_f = Fin 1, x1_f = Fin 0, x2_f = Fin 1, d_f = None, fx0_f = Fin (5 * big),
   fx1_f = Fin (- (3 * big)), fx2_f = Fin (5 * big), mflag_f = True, steps_taken_f = 0,
   calls_f = [Fin 0, Fin 1]\<rparr>"
  using big_pos by (simp add: start64_def steep_values)

lemma steep_pass1: "body64 steep (Fin (1 / 2 ^ 40))
  \<lparr>x0_f = Fin 1, x1_f = Fin 0, x2_f = Fin 1, d_f = None, fx0_f = Fin (5 * big),
   fx1_f = Fin (- (3 * big)), fx2_f = Fin (5 * big), mflag_f = True, steps_taken_f = 0,
   calls_f = [Fin 0, Fin 1]\<rparr> =
  Inr \<lparr>x0_f = Fin (1 / 2), x1_f = Fin 0, x2_f = Fin 0, d_f = Some (Fin 1), fx0_f = Fin (5 * big),
   fx1_f = Fin (- (3 * big)), fx2_f = Fin (5 * big), mflag_f = True, steps_taken_f = 1,
   calls_f = [Fin 0, Fin 1, Fin 1, Fin 0, Fin 1, Fin (1 / 2)]\<rparr>"
  using big_pos
  by (simp add: body64_eval steep_values round64_numerals round64_fractions round64_more
      round64_big_multiples round64_big_products round64_big_products_frac round64_quarters)


lemma steep_pass2: "body64 steep (Fin (1 / 2 ^ 40))
  \<lparr>x0_f = Fin (1 / 2), x1_f = Fin 0, x2_f = Fin 0, d_f = Some (Fin 1), fx0_f = Fin (5 * big),
   fx1_f = Fin (- (3 * big)), fx2_f = Fin (5 * big), mflag_f = True, steps_taken_f = 1,
   calls_f = [Fin 0, Fin 1, Fin 1, Fin 0, Fin 1, Fin (1 / 2)]\<rparr> =
  Inr \<lparr>x0_f = Fin (1 / 4), x1_f = Fin (1 / 2), x2_f = Fin 0, d_f = Some (Fin 0), fx0_f = Fin big,
   fx1_f = Fin (- (3 * big)), fx2_f = Fin (- (3 * big)), mflag_f = True, steps_taken_f = 2,
   calls_f = [Fin 0, Fin 1, Fin 1, Fin 0, Fin 1, Fin (1 / 2), Fin (1 / 2), Fin 0, Fin 0,
     Fin (1 / 4)]\<rparr>"
  using big_pos
  by (simp add: body64_eval steep_values round64_numerals round64_fractions round64_more
      round64_big_multiples round64_big_products round64_big_products_frac round64_quarters)


lemma steep_pass3: "body64 steep (Fin (1 / 2 ^ 40))
  \<lparr>x0_f = Fin (1 / 4), x1_f = Fin (1 / 2), x2_f = Fin 0, d_f = Some (Fin 0), fx0_f = Fin big,
   fx1_f = Fin (- (3 * big)), fx2_f = Fin (- (3 * big)), mflag_f = True, steps_taken_f = 2,
   calls_f = [Fin 0, Fin 1, Fin 1, Fin 0, Fin 1, Fin (1 / 2), Fin (1 / 2), Fin 0, Fin 0,
     Fin (1 / 4)]\<rparr> =
  Inr \<lparr>x0_f = NaN, x1_f = Fin (1 / 2), x2_f = Fin (1 / 2), d_f = Some (Fin 0), fx0_f = Fin (- big),
   fx1_f = Fin big, fx2_f = Fin (- (3 * big)), mflag_f = False, steps_taken_f = 3,
   calls_f = [Fin 0, Fin 1, Fin 1, Fin 0, Fin 1, Fin (1 / 2), Fin (1 / 2), Fin 0, Fin 0,
     Fin (1 / 4), Fin (1 / 4), Fin (1 / 2), Fin 0, NaN]\<rparr>"
  using big_pos
  by (simp add: body64_eval steep_values round64_numerals round64_fractions round64_more
      round64_big_multiples round64_big_products round64_big_products_frac round64_quarters)


lemma overflow_ends_loop:
  "steep (Fin 0) = Fin (- (3 * big)) \<and> steep (Fin 1) = Fin (5 * big) \<and>
   \<not> fgt (fmul (steep (Fin 0)) (steep (Fin 1))) (Fin 0) \<and>
   passes64 steep (Fin (1 / 2 ^ 40)) 3 (start64 (Fin 0) (Fin 1) (steep (Fin 0)) (steep (Fin 1))) =
     Inr \<lparr>x0_f = NaN, x1_f = Fin (1 / 2), x2_f = Fin (1 / 2), d_f = Some (Fin 0),
          fx0_f = Fin (- big), fx1_f = Fin big, fx2_f = Fin (- (3 * big)), mflag_f = False,
          steps_taken_f = 3,
          calls_f = [Fin 0, Fin 1, Fin 1, Fin 0, Fin 1, Fin (1 / 2), Fin (1 / 2), Fin 0, Fin 0,
            Fin (1 / 4), Fin (1 / 4), Fin (1 / 2), Fin 0, NaN]\<rparr> \<and>
   brents64 steep (Fin 0) (Fin 1) 4 (Fin (1 / 2 ^ 40)) =
     Inr (Fin (1 / 2), 3,
          [Fin 0, Fin 1, Fin 1, Fin 0, Fin 1, Fin (1 / 2), Fin (1 / 2), Fin 0, Fin 0,
           Fin (1 / 4), Fin (1 / 4), Fin (1 / 2), Fin 0, NaN])"
proof -
  note rs = round64_numerals round64_fractions round64_more
  have chk: "\<not> fgt (fmul (steep (Fin 0)) (steep (Fin 1))) (Fin 0)"
    by (simp add: steep_values round64_big_products fgt_def)
  have p: "passes64 steep (Fin (1 / 2 ^ 40)) 3
      (start64 (Fin 0) (Fin 1) (steep (Fin 0)) (steep (Fin 1))) =
     Inr \<lparr>x0_f = NaN, x1_f = Fin (1 / 2), x2_f = Fin (1 / 2), d_f = Some (Fin 0),
          fx0_f = Fin (- big), fx1_f = Fin big, fx2_f = Fin (- (3 * big)), mflag_f = False,
          steps_taken_f = 3,
          calls_f = [Fin 0, Fin 1, Fin 1, Fin 0, Fin 1, Fin (1 / 2), Fin (1 / 2), Fin 0, Fin 0,
            Fin (1 / 4), Fin (1 / 4), Fin (1 / 2), Fin 0, NaN]\<rparr>"
    by (simp add: numeral_3_eq_3 steep_start steep_pass1 [simplified] steep_pass2 [simplified]
          steep_pass3 [simplified])
  have l: "loop64 steep 4 (Fin (1 / 2 ^ 40))
      (start64 (Fin 0) (Fin 1) (steep (Fin 0)) (steep (Fin 1))) =
     Inr \<lparr>x0_f = NaN, x1_f = Fin (1 / 2), x2_f = Fin (1 / 2), d_f = Some (Fin 0),
          fx0_f = Fin (- big), fx1_f = Fin big, fx2_f = Fin (- (3 * big)), mflag_f = False,
          steps_taken_f = 3,
          calls_f = [Fin 0, Fin 1, Fin 1, Fin 0, Fin 1, Fin (1 / 2), Fin (1 / 2), Fin 0, Fin 0,
            Fin (1 / 4), Fin (1 / 4), Fin (1 / 2), Fin 0, NaN]\<rparr>"
    by (simp add: steep_start loop64.simps continue64_def fgt_def fsub_def rs
          steep_pass1 [simplified] steep_pass2 [simplified] steep_pass3 [simplified])
  from chk p l show ?thesis by (simp add: steep_values brents64_unfold)
qed

text \<open>With a negative \<open>max_iter\<close> the returned count \<open>0\<close> is above \<open>max_iter\<close>.\<close>

lemma negative_budget64:
  "brents64 (shifted64 1) (Fin 0) (Fin 2) (- 1) (Fin (1 / 2 ^ 40)) =
     Inr (Fin 2, 0, [Fin 0, Fin 2])"
  by (simp add: brents64_def shifted64_values round64_numerals fgt_def loop64.simps
        continue64_def start64_def)

text \<open>
  Claim C5, amended. Every call terminates (\<open>loop64\<close> is a total function). A
  call that passes the bracket check with \<open>max_iter \<ge> 0\<close> either raises
  \<open>ZeroDivisionError\<close>, or returns \<open>(x1, n)\<close> where \<open>n\<close> is the number of completed
  passes: the returned state is the result of \<open>n\<close> passes of the body from the
  entry state, the loop condition held before each of them, \<open>f\<close> has been called
  \<open>2 + 4 * n\<close> times, \<open>n \<le> max_iter\<close>, and one of these holds: \<open>n = max_iter\<close>, or
  \<open>abs(x1 - x0) \<le> tolerance\<close> in double precision, or \<open>abs(x1 - x0)\<close> or
  \<open>tolerance\<close> is nan.
\<close>

theorem brents64_returns_amended:
  assumes "\<not> fgt (fmul (f a) (f b)) (Fin 0)" and "0 \<le> max_iter"
  shows "(\<exists>cs. brents64 f a b max_iter tolerance = Inl (ZeroDivisionError, cs)) \<or>
         (\<exists>n s. passes64 f tolerance n (start64 a b (f a) (f b)) = Inr s \<and>
                (\<forall>k<n. \<exists>t. passes64 f tolerance k (start64 a b (f a) (f b)) = Inr t \<and>
                             continue64 max_iter tolerance t) \<and>
                brents64 f a b max_iter tolerance = Inr (x1_f s, int n, calls_f s) \<and>
                length (calls_f s) = 2 + 4 * n \<and>
                int n \<le> max_iter \<and>
                (int n = max_iter \<or>
                 fle (fabs (fsub (x1_f s) (x0_f s))) tolerance \<or>
                 fabs (fsub (x1_f s) (x0_f s)) = NaN \<or> tolerance = NaN))"
proof (cases "loop64 f max_iter tolerance (start64 a b (f a) (f b))")
  case (Inl p)
  obtain e cs where p: "p = (e, cs)" by (cases p)
  have "d_bound64 (start64 a b (f a) (f b))" by (simp add: d_bound64_def start64_simps)
  from loop64_raises [OF this] Inl p have "e = ZeroDivisionError" by simp
  with Inl p assms(1) have "brents64 f a b max_iter tolerance = Inl (ZeroDivisionError, cs)"
    by (simp add: brents64_unfold)
  then show ?thesis by blast
next
  case (Inr s)
  from loop64_returns [OF Inr] obtain n where
    n: "passes64 f tolerance n (start64 a b (f a) (f b)) = Inr s"
       "steps_taken_f s = steps_taken_f (start64 a b (f a) (f b)) + int n"
       "\<not> continue64 max_iter tolerance s"
       "steps_taken_f (start64 a b (f a) (f b)) \<le> max_iter \<longrightarrow> steps_taken_f s \<le> max_iter"
       "\<forall>k<n. \<exists>t. passes64 f tolerance k (start64 a b (f a) (f b)) = Inr t \<and>
                  continue64 max_iter tolerance t"
    by blast
  from n(2) have st: "steps_taken_f s = int n" by (simp add: start64_simps)
  from Inr assms(1) st
  have r: "brents64 f a b max_iter tolerance = Inr (x1_f s, int n, calls_f s)"
    by (simp add: brents64_unfold)
  from passes64_calls [OF n(1)] have l: "length (calls_f s) = 2 + 4 * n"
    by (simp add: start64_simps)
  from n(4) assms(2) st have le: "int n \<le> max_iter" by (simp add: start64_simps)
  from n(3) st le
  have "int n = max_iter \<or> \<not> fgt (fabs (fsub (x1_f s) (x0_f s))) tolerance"
    by (auto simp: continue64_def)
  with not_fgt_cases [of "fabs (fsub (x1_f s) (x0_f s))" tolerance]
  have ex: "int n = max_iter \<or>
            fle (fabs (fsub (x1_f s) (x0_f s))) tolerance \<or>
            fabs (fsub (x1_f s) (x0_f s)) = NaN \<or> tolerance = NaN"
    by blast
  from n(1) n(5) r l le ex show ?thesis by blast
qed

theorem brents64_returns_amended_witness:
  "\<not> fgt (fmul (shifted64 1 (Fin 0)) (shifted64 1 (Fin 2))) (Fin 0) \<and> (0 :: int) \<le> 3 \<and>
   ((\<exists>cs. brents64 (shifted64 1) (Fin 0) (Fin 2) 3 (Fin (1 / 2 ^ 40)) =
            Inl (ZeroDivisionError, cs)) \<or>
    (\<exists>n s. passes64 (shifted64 1) (Fin (1 / 2 ^ 40)) n
              (start64 (Fin 0) (Fin 2) (shifted64 1 (Fin 0)) (shifted64 1 (Fin 2))) = Inr s \<and>
           (\<forall>k<n. \<exists>t. passes64 (shifted64 1) (Fin (1 / 2 ^ 40)) k
                (start64 (Fin 0) (Fin 2) (shifted64 1 (Fin 0)) (shifted64 1 (Fin 2))) = Inr t \<and>
              continue64 3 (Fin (1 / 2 ^ 40)) t) \<and>
           brents64 (shifted64 1) (Fin 0) (Fin 2) 3 (Fin (1 / 2 ^ 40)) =
             Inr (x1_f s, int n, calls_f s) \<and>
           length (calls_f s) = 2 + 4 * n \<and>
           int n \<le> 3 \<and>
           (int n = 3 \<or>
            fle (fabs (fsub (x1_f s) (x0_f s))) (Fin (1 / 2 ^ 40)) \<or>
            fabs (fsub (x1_f s) (x0_f s)) = NaN \<or> Fin (1 / 2 ^ 40) = NaN)))"
proof -
  have h: "\<not> fgt (fmul (shifted64 1 (Fin 0)) (shifted64 1 (Fin 2))) (Fin 0)"
    by (simp add: shifted64_values round64_numerals fgt_def)
  from brents64_returns_amended [of "shifted64 1" "Fin 0" "Fin 2" 3 "Fin (1 / 2 ^ 40)"] h
  show ?thesis by simp
qed

end
